theory Spec2Isabelle
  imports Complex_Main
begin

text \<open>
  The payment settlement code of the storefront: the verify-payment endpoint that asks
  the payment switch about a hash, the cron job that re-checks unused payment tokens and
  sends the order notifications, and the payment modal that re-verifies the price,
  stores the token and polls the endpoint. Network calls, database queries, the clock
  and random numbers are inputs of the model; what a run sends, logs and sleeps is
  recorded as a list of events.
\<close>

section \<open>Shared data: JSON bodies, HTTP responses, observable events\<close>

text \<open>
  The JSON objects that the payment code reads are only inspected through two fields,
  \<open>responseCode\<close> and \<open>error\<close>; a field that is absent (or is not of the expected
  kind) is \<open>None\<close>.
\<close>

record json =
  responseCode :: "int option"
  error :: "string option"

text \<open>
  Outcome of \<open>await fetch(...)\<close> followed by \<open>await response.json()\<close>: the fetch
  promise rejects (network failure), or it resolves with an HTTP status and a body;
  the body is \<open>None\<close> when \<open>response.json()\<close> rejects (the body is not JSON).
\<close>

datatype fetch_result = Fetch_rejects | Fetch_resolves nat "json option"

text \<open>\<open>Response.ok\<close>: the status is in the range 200-299.\<close>

definition ok :: "nat \<Rightarrow> bool" where
  "ok st = (200 \<le> st \<and> st \<le> 299)"

record http_response =
  status :: nat
  headers :: "(string \<times> string) list"
  body :: "json option"

text \<open>What a run does besides returning: requests sent, sleeps, console output.\<close>

datatype event =
    Fetch_bakong "string option"
  | Sleep nat
  | Console_error string
  | Console_log string
  | Fetch_telegram string string
  | Update_used nat
  | Axios_post string

section \<open>The verify-payment endpoint (src/unnamed/part\_000)\<close>

record request =
  request_method :: string
  request_json :: "string option option"

text \<open>
  \<open>request_method\<close> is \<open>request.method\<close>;
  \<open>request_json\<close> is \<open>None\<close> when \<open>await request.json()\<close> rejects or the
  destructuring of its result throws; otherwise it is the \<open>md5\<close> field (which may be
  undefined, \<open>Some None\<close>).
\<close>

definition maxAttempts :: nat where
  "maxAttempts = 3"

definition retryDelay :: nat where
  "retryDelay = 1000"

definition json_headers :: "(string \<times> string) list" where
  "json_headers = [(''Content-Type'', ''application/json'')]"

text \<open>
  The \<open>while (attempts < maxAttempts)\<close> loop. \<open>bakong n md5\<close> is the outcome of the
  fetch made when \<open>attempts = n\<close>. The result is \<open>Some\<close> response when the loop body
  returns, \<open>None\<close> when the loop runs to its end; the second component lists the
  events in order. The \<open>catch\<close> branch logs \<open>Attempt n failed:\<close> with the attempt's
  number, which the logged text here leaves out.
\<close>

function retry_loop ::
  "(nat \<Rightarrow> string option \<Rightarrow> fetch_result) \<Rightarrow> string option \<Rightarrow> nat \<Rightarrow> event list
     \<Rightarrow> http_response option \<times> event list" where
  "retry_loop bakong md5 attempts tr =
     (if attempts < maxAttempts then
        (case bakong attempts md5 of
           Fetch_resolves st (Some data) \<Rightarrow>
             if ok st then
               (Some \<lparr>status = 200, headers = json_headers, body = Some data\<rparr>,
                tr @ [Fetch_bakong md5])
             else if 400 \<le> st \<and> st < 500 then
               (Some \<lparr>status = st, headers = json_headers, body = Some data\<rparr>,
                tr @ [Fetch_bakong md5])
             else
               retry_loop bakong md5 (attempts + 1)
                 (tr @ [Fetch_bakong md5] @
                    (if attempts + 1 < maxAttempts then [Sleep retryDelay] else []))
         | _ \<Rightarrow>
             retry_loop bakong md5 (attempts + 1)
               (tr @ [Fetch_bakong md5, Console_error ''Attempt failed''] @
                  (if attempts + 1 < maxAttempts then [Sleep retryDelay] else [])))
      else (None, tr))"
  by pat_completeness auto
termination
  by (relation "measure (\<lambda>(bakong, md5, attempts, tr). maxAttempts - attempts)") auto

declare retry_loop.simps [simp del]

definition handler_part_000 ::
  "(nat \<Rightarrow> string option \<Rightarrow> fetch_result) \<Rightarrow> request \<Rightarrow> http_response \<times> event list" where
  "handler_part_000 bakong req =
     (if request_method req = ''OPTIONS'' then
        (\<lparr>status = 200,
          headers = [(''Access-Control-Allow-Origin'', ''*''),
                     (''Access-Control-Allow-Methods'', ''POST, OPTIONS''),
                     (''Access-Control-Allow-Headers'', ''Content-Type'')],
          body = None\<rparr>, [])
      else if request_method req \<noteq> ''POST'' then
        (\<lparr>status = 405, headers = json_headers,
          body = Some \<lparr>responseCode = None, error = Some ''Method not allowed''\<rparr>\<rparr>, [])
      else
        (case request_json req of
           None \<Rightarrow>
             (\<lparr>status = 500, headers = json_headers,
               body = Some \<lparr>responseCode = Some 1,
                             error = Some ''Failed to verify payment''\<rparr>\<rparr>,
              [Console_error ''Bakong API error:''])
         | Some md5 \<Rightarrow>
             (case retry_loop bakong md5 0 [] of
                (Some r, tr) \<Rightarrow> (r, tr)
              | (None, tr) \<Rightarrow>
                  (\<lparr>status = 500, headers = json_headers,
                    body = Some \<lparr>responseCode = Some 1,
                                  error = Some ''Failed to verify payment after multiple attempts''\<rparr>\<rparr>,
                   tr))))"

text \<open>An attempt whose outcome sends the loop round again.\<close>

definition retried :: "fetch_result \<Rightarrow> bool" where
  "retried r =
     (case r of
        Fetch_rejects \<Rightarrow> True
      | Fetch_resolves st None \<Rightarrow> True
      | Fetch_resolves st (Some data) \<Rightarrow> \<not> ok st \<and> \<not> (400 \<le> st \<and> st < 500))"

definition fetches :: "event list \<Rightarrow> nat" where
  "fetches tr = length (filter (\<lambda>e. case e of Fetch_bakong m \<Rightarrow> True | _ \<Rightarrow> False) tr)"

section \<open>The reconciliation cron job (src/unnamed/part\_001)\<close>

text \<open>
  A row of \<open>payment_tokens\<close> as the job reads it. \<open>order_data\<close> is \<open>None\<close> for a
  null column (reading a field of it throws); \<open>md5\<close> is \<open>None\<close> when the field is
  absent.
\<close>

record order_data =
  md5 :: "string option"
  mainMessage :: string
  orderMessage :: string

record token =
  token_id :: nat
  used :: bool
  created_at :: int
  token_status :: string
  order_data :: "order_data option"

record queued_message =
  chatId :: string
  message_text :: string
  timestamp :: int
  retryCount :: nat

record sweep_result =
  tokenId :: nat
  verified :: bool
  mainGroupSent :: bool
  ordersGroupSent :: bool

text \<open>
  Outcome of the Telegram request inside \<open>sendTelegramMessage\<close>: the \<open>try\<close> block
  throws (the fetch or \<open>response.json()\<close> rejects), or it yields \<open>data\<close>, of which
  only the truthiness of \<open>data.ok\<close> is used.
\<close>

datatype tg_result = Tg_rejects | Tg_data bool

text \<open>
  The module state (\<open>messageQueue\<close>, \<open>isProcessingQueue\<close>), the table, the
  handler's local \<open>results\<close>, the number of external calls made so far and the
  events so far.
\<close>

record cron_state =
  payment_tokens :: "token list"
  messageQueue :: "queued_message list"
  isProcessingQueue :: bool
  results :: "sweep_result list"
  calls :: nat
  trace :: "event list"

text \<open>
  The outside world. Each external call is answered from the number of calls made
  before it and its arguments. \<open>supabase_update\<close> and \<open>supabase_select\<close> are
  \<open>True\<close> when the query returns an error.
\<close>

record env =
  bakong_api :: "nat \<Rightarrow> string \<Rightarrow> fetch_result"
  telegram_api :: "nat \<Rightarrow> string \<Rightarrow> string \<Rightarrow> tg_result"
  supabase_update :: "nat \<Rightarrow> nat \<Rightarrow> bool"
  supabase_select :: "nat \<Rightarrow> bool"
  date_now :: "nat \<Rightarrow> int"
  TELEGRAM_CHAT_ID :: string

definition TELEGRAM_ORDERS_CHAT_ID :: string where
  "TELEGRAM_ORDERS_CHAT_ID = ''-1002399561845''"

definition MAX_RETRIES :: nat where
  "MAX_RETRIES = 3"

definition RETRY_DELAY :: nat where
  "RETRY_DELAY = 1000"

definition PAYMENT_WINDOW :: int where
  "PAYMENT_WINDOW = 30 * 60 * 1000"

definition emit :: "event list \<Rightarrow> cron_state \<Rightarrow> cron_state" where
  "emit es s = s\<lparr>trace := trace s @ es\<rparr>"

definition verifyPayment_part_001 :: "env \<Rightarrow> cron_state \<Rightarrow> string \<Rightarrow> bool \<times> cron_state" where
  "verifyPayment_part_001 e s md5Hash =
     (let s' = emit [Fetch_bakong (Some md5Hash)] (s\<lparr>calls := calls s + 1\<rparr>) in
      case bakong_api e (calls s) md5Hash of
        Fetch_rejects \<Rightarrow> (False, emit [Console_error ''Error verifying payment:''] s')
      | Fetch_resolves st b \<Rightarrow>
          if \<not> ok st then (False, emit [Console_error ''Bakong API error:''] s')
          else
            (case b of
               None \<Rightarrow> (False, emit [Console_error ''Error verifying payment:''] s')
             | Some data \<Rightarrow> (responseCode data = Some 0, s')))"

definition sendTelegramMessage ::
  "env \<Rightarrow> cron_state \<Rightarrow> string \<Rightarrow> string \<Rightarrow> nat \<Rightarrow> bool \<times> cron_state" where
  "sendTelegramMessage e s chat_id txt retry_count =
     (let s' = emit [Fetch_telegram chat_id txt] (s\<lparr>calls := calls s + 1\<rparr>) in
      case telegram_api e (calls s) chat_id txt of
        Tg_data b \<Rightarrow> (b, s')
      | Tg_rejects \<Rightarrow>
          (let s'' = emit [Console_error ''Telegram API error''] s' in
           if retry_count < MAX_RETRIES then
             (False,
              s''\<lparr>messageQueue := messageQueue s'' @
                     [\<lparr>chatId = chat_id, message_text = txt, timestamp = date_now e (calls s),
                       retryCount = retry_count + 1\<rparr>]\<rparr>)
           else (False, s'')))"

text \<open>
  The \<open>while (messageQueue.length > 0)\<close> loop of \<open>processMessageQueue\<close>. Nothing in
  the source bounds its iterations, so the model counts them down from \<open>fuel\<close>:
  \<open>None\<close> means that the loop is still running after \<open>fuel\<close> iterations.
\<close>

fun drain :: "nat \<Rightarrow> env \<Rightarrow> cron_state \<Rightarrow> cron_state option" where
  "drain 0 e s = (if messageQueue s = [] then Some s else None)"
| "drain (Suc fuel) e s =
     (case messageQueue s of
        [] \<Rightarrow> Some s
      | message # rest \<Rightarrow>
          (case sendTelegramMessage e s (chatId message) (message_text message) (retryCount message) of
             (True, s1) \<Rightarrow> drain fuel e (s1\<lparr>messageQueue := tl (messageQueue s1)\<rparr>)
           | (False, s1) \<Rightarrow>
               drain fuel e
                 (emit [Sleep RETRY_DELAY]
                    (if retryCount message \<ge> MAX_RETRIES
                     then s1\<lparr>messageQueue := tl (messageQueue s1)\<rparr> else s1))))"

definition processMessageQueue :: "nat \<Rightarrow> env \<Rightarrow> cron_state \<Rightarrow> cron_state option" where
  "processMessageQueue fuel e s =
     (if isProcessingQueue s \<or> messageQueue s = [] then Some s
      else
        (case drain fuel e (s\<lparr>isProcessingQueue := True\<rparr>) of
           None \<Rightarrow> None
         | Some s' \<Rightarrow> Some (s'\<lparr>isProcessingQueue := False\<rparr>)))"

text \<open>\<open>.update({ used: true }).eq('id', token.id)\<close>: every row with that id.\<close>

definition mark_used :: "nat \<Rightarrow> token list \<Rightarrow> token list" where
  "mark_used i tbl = map (\<lambda>t. if token_id t = i then t\<lparr>used := True\<rparr> else t) tbl"

text \<open>The body of \<open>for (const token of tokens)\<close>, once \<open>token.order_data\<close> is read.\<close>

definition process_token :: "env \<Rightarrow> cron_state \<Rightarrow> token \<Rightarrow> order_data \<Rightarrow> cron_state" where
  "process_token e s tok orderData =
     (case md5 orderData of
        None \<Rightarrow> s
      | Some md5Hash \<Rightarrow>
          if md5Hash = [] then s
          else
            (case verifyPayment_part_001 e s md5Hash of
               (False, s1) \<Rightarrow> s1
             | (True, s1) \<Rightarrow>
                 (case verifyPayment_part_001 e s1 md5Hash of
                    (False, s2) \<Rightarrow> s2
                  | (True, s2) \<Rightarrow>
                      (let s3 = emit [Update_used (token_id tok)] (s2\<lparr>calls := calls s2 + 1\<rparr>) in
                       if supabase_update e (calls s2) (token_id tok) then
                         emit [Console_error ''Error updating token:''] s3
                       else
                         (case sendTelegramMessage e
                                 (s3\<lparr>payment_tokens := mark_used (token_id tok) (payment_tokens s3)\<rparr>)
                                 (TELEGRAM_CHAT_ID e) (mainMessage orderData) 0 of
                            (mainSuccess, s4) \<Rightarrow>
                              (case sendTelegramMessage e s4 TELEGRAM_ORDERS_CHAT_ID
                                      (orderMessage orderData) 0 of
                                 (ordersSuccess, s5) \<Rightarrow>
                                   s5\<lparr>results := results s5 @
                                        [\<lparr>tokenId = token_id tok, verified = True,
                                          mainGroupSent = mainSuccess,
                                          ordersGroupSent = ordersSuccess\<rparr>]\<rparr>))))))"

text \<open>
  The \<open>for\<close> loop. The first component is \<open>True\<close> when reading a field of a null
  \<open>order_data\<close> throws, which leaves the loop for the handler's \<open>catch\<close>.
\<close>

fun sweep_loop :: "env \<Rightarrow> token list \<Rightarrow> cron_state \<Rightarrow> bool \<times> cron_state" where
  "sweep_loop e [] s = (False, s)"
| "sweep_loop e (tok # toks) s =
     (case order_data tok of
        None \<Rightarrow> (True, s)
      | Some orderData \<Rightarrow> sweep_loop e toks (process_token e s tok orderData))"

text \<open>
  \<open>.eq('used', false).gt('created_at', cutoffTime).order('created_at', { ascending: true })\<close>
\<close>

definition select_pending :: "int \<Rightarrow> token list \<Rightarrow> token list" where
  "select_pending cutoffTime tbl =
     sort_key created_at (filter (\<lambda>t. \<not> used t \<and> cutoffTime < created_at t) tbl)"

datatype cron_body =
    Error_body string
  | Message_body string
  | Completed_body string "sweep_result list"

definition handler_part_001 ::
  "nat \<Rightarrow> env \<Rightarrow> request \<Rightarrow> cron_state \<Rightarrow> ((nat \<times> cron_body) \<times> cron_state) option" where
  "handler_part_001 fuel e req s =
     (if request_method req \<noteq> ''POST'' then Some ((405, Error_body ''Method not allowed''), s)
      else
        (let cutoffTime = date_now e (calls s) - PAYMENT_WINDOW;
             s0 = s\<lparr>calls := calls s + 1, results := []\<rparr> in
         if supabase_select e (calls s) then
           Some ((500, Error_body ''Internal server error''),
                 emit [Console_error ''Error in cron job:''] s0)
         else
           (let tokens = select_pending cutoffTime (payment_tokens s0) in
            if tokens = [] then Some ((200, Message_body ''No pending payments to check''), s0)
            else
              (case sweep_loop e tokens s0 of
                 (True, s1) \<Rightarrow>
                   Some ((500, Error_body ''Internal server error''),
                         emit [Console_error ''Error in cron job:''] s1)
               | (False, s1) \<Rightarrow>
                   (case processMessageQueue fuel e s1 of
                      None \<Rightarrow> None
                    | Some s2 \<Rightarrow>
                        Some ((200, Completed_body ''Payment check completed'' (results s2)),
                              s2))))))"

text \<open>The Telegram requests among the events.\<close>

definition telegram_sends :: "event list \<Rightarrow> event list" where
  "telegram_sends tr = filter (\<lambda>ev. case ev of Fetch_telegram c t \<Rightarrow> True | _ \<Rightarrow> False) tr"

text \<open>A settlement check that \<open>verifyPayment\<close> reports as settled.\<close>

definition settled :: "fetch_result \<Rightarrow> bool" where
  "settled r =
     (case r of
        Fetch_rejects \<Rightarrow> False
      | Fetch_resolves st b \<Rightarrow>
          ok st \<and> (case b of None \<Rightarrow> False | Some data \<Rightarrow> responseCode data = Some 0))"

section \<open>The payment modal (PaymentModal, in src/.../components/OrderLookup.tsx)\<close>

datatype modal_status = Status_pending | Status_success | Status_checking | Status_error

text \<open>
  The component state that the payment functions read and write, the timer handles
  held in refs (\<open>None\<close> for \<open>null\<close>), the \<open>payment_tokens\<close> table behind the
  Supabase client, and the events so far.
\<close>

record modal =
  modal_status :: modal_status
  errorMessage :: string
  showSuccessAnimation :: bool
  qrExpired :: bool
  showMessage :: bool
  md5Hash :: string
  transactionId :: string
  qrTimeoutRef :: "nat option"
  cooldownIntervalRef :: "nat option"
  pollIntervalRef :: "nat option"
  expiryTimeoutRef :: "nat option"
  payNowCooldownRef :: "nat option"
  tokens_table :: "token list"
  effects :: "event list"

definition cleanup :: "modal \<Rightarrow> modal" where
  "cleanup w =
     w\<lparr>qrTimeoutRef := None, cooldownIntervalRef := None, pollIntervalRef := None,
       expiryTimeoutRef := None, payNowCooldownRef := None\<rparr>"

text \<open>
  Outcome of \<open>await axios.post('/api/verify-payment', ...)\<close>: the promise rejects
  (network failure or a status outside 200-299), or it resolves with \<open>response.data\<close>,
  which is \<open>None\<close> when it is null or undefined (reading a field of it throws).
\<close>

datatype axios_result = Axios_rejects | Axios_resolves "json option"

definition verifyPayment :: "axios_result \<Rightarrow> modal \<Rightarrow> modal" where
  "verifyPayment r w =
     (if qrExpired w then w
      else
        (let w1 = w\<lparr>effects := effects w @ [Axios_post ''/api/verify-payment'']\<rparr> in
         case r of
           Axios_resolves (Some data) \<Rightarrow>
             if responseCode data = Some 0 then
               cleanup (w1\<lparr>modal_status := Status_success, showSuccessAnimation := True\<rparr>)
             else if responseCode data = Some 1 then
               w1\<lparr>effects := effects w1 @ [Console_log ''Payment still pending for MD5:'']\<rparr>
             else
               cleanup
                 (w1\<lparr>modal_status := Status_error,
                     errorMessage :=
                       (case error data of
                          None \<Rightarrow> ''Payment verification failed. Please try again or contact support.''
                        | Some msg \<Rightarrow>
                            if msg = [] then
                              ''Payment verification failed. Please try again or contact support.''
                            else msg)\<rparr>)
         | _ \<Rightarrow>
             cleanup
               (w1\<lparr>effects := effects w1 @ [Console_error ''Error verifying payment:''],
                   modal_status := Status_error,
                   errorMessage := ''Failed to verify payment. Please try again or contact support.''\<rparr>)))"

text \<open>
  The poll effect arms the interval only while none of its guards
  (\<open>!md5Hash || showMessage || status === 'success' || status === 'error' || qrExpired\<close>)
  holds, and the interval runs only while its handle is held.
\<close>

definition polling :: "modal \<Rightarrow> bool" where
  "polling w =
     (md5Hash w \<noteq> [] \<and> \<not> showMessage w \<and> modal_status w \<noteq> Status_success
      \<and> modal_status w \<noteq> Status_error \<and> \<not> qrExpired w \<and> pollIntervalRef w \<noteq> None)"

subsection \<open>Price re-verification and token storage\<close>

text \<open>
  Amounts are JavaScript numbers: IEEE 754 binary64 values. A finite one is a real
  number, and every arithmetic operation returns the exact result rounded to the nearest
  binary64 value, ties to the even significand. \<open>fl\<close> is that rounding: the value is
  scaled by its binary exponent to a 53-bit significand, rounded to an integer and scaled
  back. Exponents below -1022 share the quantum of -1022 (subnormal numbers). Results
  beyond the largest finite value (Infinity) and NaN are outside the model; the amounts
  of the shop are far from either.
\<close>

definition round_half_even :: "real \<Rightarrow> int" where
  "round_half_even y =
     (let n = \<lfloor>y\<rfloor>; r = y - of_int n
      in if r < 1 / 2 then n else if 1 / 2 < r then n + 1 else if even n then n else n + 1)"

text \<open>
  The binary exponent of a positive number: \<open>k\<close> with \<open>2 ^ k \<le> x < 2 ^ (k + 1)\<close>, found
  by halving or doubling, within the exponent range of binary64.
\<close>

fun expo_up :: "nat \<Rightarrow> real \<Rightarrow> int" where
  "expo_up 0 x = 0"
| "expo_up (Suc n) x = (if x < 2 then 0 else expo_up n (x / 2) + 1)"

fun expo_down :: "nat \<Rightarrow> real \<Rightarrow> int" where
  "expo_down 0 x = 0"
| "expo_down (Suc n) x = (if 1 \<le> x then 0 else expo_down n (x * 2) - 1)"

definition exponent :: "real \<Rightarrow> int" where
  "exponent x = (if 1 \<le> x then expo_up 1023 x else expo_down 1022 x)"

definition fl :: "real \<Rightarrow> real" where
  "fl x =
     (if x = 0 then 0
      else (let q = 2 powi (exponent \<bar>x\<bar> - 52) in of_int (round_half_even (x / q)) * q))"

text \<open>The operators \<open>*\<close>, \<open>/\<close> and \<open>-\<close> of the source, and the literal \<open>0.01\<close>.\<close>

definition js_mul :: "real \<Rightarrow> real \<Rightarrow> real" where
  "js_mul a b = fl (a * b)"

definition js_div :: "real \<Rightarrow> real \<Rightarrow> real" where
  "js_div a b = fl (a / b)"

definition js_sub :: "real \<Rightarrow> real \<Rightarrow> real" where
  "js_sub a b = fl (a - b)"

definition literal_0_01 :: real where
  "literal_0_01 = fl (1 / 100)"

text \<open>
  \<open>Math.round\<close> returns the nearest integer, halves upwards; the result is exact.
\<close>

definition Math_round :: "real \<Rightarrow> real" where
  "Math_round x = of_int \<lfloor>x + 1 / 2\<rfloor>"

record product =
  product_id :: nat
  price :: real
  name :: string

record form =
  userId :: string
  serverId :: string
  game :: string
  product :: "product option"
  nickname :: "string option"

record order_info =
  transaction_id :: string
  order_id :: string
  oi_game :: string
  amount :: real
  item :: "string option"
  user_id :: string
  server_id :: string
  order_date :: string
  main_message :: string
  order_message :: string
  oi_nickname :: "string option"

text \<open>
  What \<open>storePayment\<close> takes from outside: the two price queries (\<open>None\<close> when the
  query errors or returns no row), the reseller flag of local storage, the random
  transaction number, the clock readings, how a number prints, the product label of the
  main message, and the database function \<open>create_payment_token\<close>, which is not part
  of the repository's sources: it returns an error message or the token with the table
  after the call. The order message of the source starts with \<open>Top up successful\<close>
  followed by a check-mark glyph, which is left out here.
\<close>

record store_env =
  select_product :: "string \<Rightarrow> nat option \<Rightarrow> real option"
  isReseller :: bool
  select_reseller_price :: "nat option \<Rightarrow> string \<Rightarrow> real option"
  random_tx :: string
  date_now_string :: string
  orderDate :: string
  show_number :: "real \<Rightarrow> string"
  product_label :: "product option \<Rightarrow> string"
  create_payment_token ::
    "string \<Rightarrow> string \<Rightarrow> order_info \<Rightarrow> token list \<Rightarrow> string + (string \<times> token list)"

definition finalAmount :: "form \<Rightarrow> real \<Rightarrow> real" where
  "finalAmount f discountPercent =
     (case product f of
        None \<Rightarrow> 0
      | Some p \<Rightarrow>
          if price p = 0 then 0
          else
            (let discount = js_div (js_mul (price p) discountPercent) 100;
                 amount = js_sub (price p) discount
             in js_div (Math_round (js_mul amount 100)) 100))"

definition verifyCurrentPrice :: "store_env \<Rightarrow> form \<Rightarrow> real option" where
  "verifyCurrentPrice e f =
     (let tableName =
            (if game f = ''mlbb'' then ''mlbb_products''
             else if game f = ''mlbb_ph'' then ''mlbb_ph_products''
             else if game f = ''freefire'' then ''freefire_products''
             else if game f = ''freefire_th'' then ''freefire_th_products''
             else ''freefire_products'')
      in case select_product e tableName (map_option product_id (product f)) of
           None \<Rightarrow> None
         | Some product_price \<Rightarrow>
             if isReseller e then
               (case select_reseller_price e (map_option product_id (product f)) (game f) of
                  None \<Rightarrow> Some product_price
                | Some resellerPrice \<Rightarrow> Some resellerPrice)
             else Some product_price)"

definition store_failed :: "string \<Rightarrow> modal \<Rightarrow> string option \<times> modal" where
  "store_failed msg w =
     (None, w\<lparr>effects := effects w @ [Console_error ''Error storing payment:''],
              errorMessage := msg, modal_status := Status_error\<rparr>)"

definition game_title :: "string \<Rightarrow> string" where
  "game_title g =
     (if g = ''mlbb'' then ''Mobile Legends''
      else if g = ''mlbb_ph'' then ''Mobile Legends PH''
      else if g = ''freefire'' then ''Free Fire''
      else ''Free Fire TH'')"

definition server_of :: "form \<Rightarrow> string" where
  "server_of f = (if game f = ''freefire'' \<or> game f = ''freefire_th'' then ''0'' else serverId f)"

text \<open>The local \<open>expectedFinalAmount\<close> of \<open>storePayment\<close>.\<close>

definition expectedFinalAmount :: "real \<Rightarrow> real \<Rightarrow> real" where
  "expectedFinalAmount currentPrice discountPercent =
     js_div
       (Math_round
          (js_mul (js_div (js_mul currentPrice (js_sub 100 discountPercent)) 100) 100))
       100"

definition storePayment ::
  "store_env \<Rightarrow> form \<Rightarrow> real \<Rightarrow> string \<Rightarrow> modal \<Rightarrow> string option \<times> modal" where
  "storePayment e f discountPercent hash w =
     (case verifyCurrentPrice e f of
        None \<Rightarrow> store_failed ''Failed to verify current price'' w
      | Some currentPrice \<Rightarrow>
          (if \<bar>js_sub (expectedFinalAmount currentPrice discountPercent)
                   (finalAmount f discountPercent)\<bar> > literal_0_01 then
             store_failed ''Price has changed. Please refresh and try again.'' w
           else
             (let txId = ''tb'' @ random_tx e;
                  w1 = w\<lparr>transactionId := txId\<rparr>;
                  orderId = date_now_string e;
                  item_name = map_option name (product f);
                  mainMessage = userId f @ '' '' @ server_of f @ '' '' @ product_label e (product f);
                  orderMessage =
                    ''Top up successful\<newline>\<newline>- Transaction: '' @ txId
                    @ ''\<newline>- Game: '' @ game_title (game f)
                    @ ''\<newline>- Amount: '' @ show_number e (finalAmount f discountPercent) @ '' $''
                    @ ''\<newline>- Item: '' @ (case item_name of None \<Rightarrow> ''undefined'' | Some n \<Rightarrow> n)
                    @ ''\<newline>- User ID: '' @ userId f
                    @ ''\<newline>- Server ID: '' @ server_of f
                    @ ''\<newline>- Order ID: S'' @ orderId
                    @ ''\<newline>- Order Date: '' @ orderDate e;
                  orderData =
                    \<lparr>transaction_id = txId, order_id = orderId, oi_game = game f,
                     amount = finalAmount f discountPercent, item = item_name,
                     user_id = userId f, server_id = server_of f, order_date = orderDate e,
                     main_message = mainMessage, order_message = orderMessage,
                     oi_nickname =
                       (case nickname f of
                          None \<Rightarrow> None
                        | Some n \<Rightarrow> if n = [] then None else Some n)\<rparr>
              in case create_payment_token e hash ''pending'' orderData (tokens_table w1) of
                   Inl msg \<Rightarrow> store_failed (''Failed to store payment: '' @ msg) w1
                 | Inr (tok, tbl) \<Rightarrow> (Some tok, w1\<lparr>tokens_table := tbl\<rparr>))))"

section \<open>Concrete inputs\<close>

text \<open>
  One pending token, paid or unpaid answers of the payment switch, and an outside world
  that answers every call of a kind in the same way.
\<close>

definition ex_order_data :: order_data where
  "ex_order_data =
     \<lparr>md5 = Some ''h1'', mainMessage = ''main text'', orderMessage = ''order text''\<rparr>"

definition ex_token :: token where
  "ex_token = \<lparr>token_id = 1, used = False, created_at = 100, token_status = ''pending'',
                order_data = Some ex_order_data\<rparr>"

definition ex_state :: cron_state where
  "ex_state = \<lparr>payment_tokens = [ex_token], messageQueue = [], isProcessingQueue = False,
                results = [], calls = 0, trace = []\<rparr>"

definition ex_queue_state :: cron_state where
  "ex_queue_state =
     ex_state\<lparr>messageQueue :=
                [\<lparr>chatId = ''main'', message_text = ''main text'', timestamp = 1000,
                  retryCount = 1\<rparr>]\<rparr>"

definition paid :: fetch_result where
  "paid = Fetch_resolves 200 (Some \<lparr>responseCode = Some 0, error = None\<rparr>)"

definition unpaid :: fetch_result where
  "unpaid = Fetch_resolves 200 (Some \<lparr>responseCode = Some 1, error = None\<rparr>)"

definition ex_env :: "(nat \<Rightarrow> fetch_result) \<Rightarrow> tg_result \<Rightarrow> bool \<Rightarrow> env" where
  "ex_env bk tg upd =
     \<lparr>bakong_api = (\<lambda>n h. bk n), telegram_api = (\<lambda>n c t. tg),
      supabase_update = (\<lambda>n i. upd), supabase_select = (\<lambda>n. False),
      date_now = (\<lambda>n. 1000), TELEGRAM_CHAT_ID = ''main''\<rparr>"

text \<open>
  A table with the pending token, a token already used and an unused token created
  before the payment window.
\<close>

definition ex_table_state :: cron_state where
  "ex_table_state =
     ex_state\<lparr>payment_tokens :=
                [ex_token,
                 ex_token\<lparr>token_id := 2, used := True\<rparr>,
                 ex_token\<lparr>token_id := 3, created_at := - 5000000\<rparr>]\<rparr>"

definition ex_request :: request where
  "ex_request = \<lparr>request_method = ''POST'', request_json = None\<rparr>"

definition ex_modal :: modal where
  "ex_modal =
     \<lparr>modal_status = Status_checking, errorMessage = [], showSuccessAnimation = False,
      qrExpired = False, showMessage = False, md5Hash = ''h1'', transactionId = ''tb123456'',
      qrTimeoutRef = None, cooldownIntervalRef = None, pollIntervalRef = Some 7,
      expiryTimeoutRef = Some 8, payNowCooldownRef = None,
      tokens_table = [ex_token], effects = []\<rparr>"

definition ex_product :: product where
  "ex_product = \<lparr>product_id = 5, price = 10, name = ''86 diamonds''\<rparr>"

definition ex_form :: form where
  "ex_form = \<lparr>userId = ''12345'', serverId = ''678'', game = ''mlbb'',
               product = Some ex_product, nickname = None\<rparr>"

text \<open>The form with another catalog price on the product it shows.\<close>

definition priced :: "real \<Rightarrow> form" where
  "priced p = ex_form\<lparr>product := Some (ex_product\<lparr>price := p\<rparr>)\<rparr>"

definition ex_store_env :: "real \<Rightarrow> store_env" where
  "ex_store_env catalog_price =
     \<lparr>select_product = (\<lambda>tbl i. Some catalog_price), isReseller = False,
      select_reseller_price = (\<lambda>i g. None), random_tx = ''123456'',
      date_now_string = ''1742562960620'', orderDate = ''21/03/2025, 20:16:00'',
      show_number = (\<lambda>x. ''10''), product_label = (\<lambda>p. ''86''),
      create_payment_token = (\<lambda>h st oi tbl. Inr (''tok'', tbl @ [ex_token]))\<rparr>"

section \<open>Properties of the verify-payment endpoint\<close>

lemma retry_loop_done:
  "\<not> attempts < maxAttempts \<Longrightarrow> retry_loop bakong m attempts tr = (None, tr)"
  by (simp add: retry_loop.simps [of _ _ attempts])

lemma retry_loop_step:
  "attempts < maxAttempts \<Longrightarrow>
   retry_loop bakong m attempts tr =
     (case bakong attempts m of
        Fetch_resolves st (Some data) \<Rightarrow>
          if ok st then
            (Some \<lparr>status = 200, headers = json_headers, body = Some data\<rparr>,
             tr @ [Fetch_bakong m])
          else if 400 \<le> st \<and> st < 500 then
            (Some \<lparr>status = st, headers = json_headers, body = Some data\<rparr>,
             tr @ [Fetch_bakong m])
          else
            retry_loop bakong m (attempts + 1)
              (tr @ [Fetch_bakong m] @
                 (if attempts + 1 < maxAttempts then [Sleep retryDelay] else []))
      | _ \<Rightarrow>
          retry_loop bakong m (attempts + 1)
            (tr @ [Fetch_bakong m, Console_error ''Attempt failed''] @
               (if attempts + 1 < maxAttempts then [Sleep retryDelay] else [])))"
  by (simp add: retry_loop.simps [of _ _ attempts])

text \<open>The loop runs to its end exactly when every remaining attempt is retried.\<close>

lemma retry_loop_None_iff:
  "fst (retry_loop bakong m attempts tr) = None \<longleftrightarrow>
   (\<forall>i. attempts \<le> i \<and> i < maxAttempts \<longrightarrow> retried (bakong i m))"
proof (induction bakong m attempts tr rule: retry_loop.induct)
  case (1 bakong m attempts tr)
  show ?case
  proof (cases "attempts < maxAttempts")
    case False
    then show ?thesis by (auto simp add: retry_loop_done)
  next
    case True
    have split:
      "(\<forall>i. attempts \<le> i \<and> i < maxAttempts \<longrightarrow> retried (bakong i m)) \<longleftrightarrow>
       retried (bakong attempts m) \<and>
       (\<forall>i. attempts + 1 \<le> i \<and> i < maxAttempts \<longrightarrow> retried (bakong i m))"
    proof (intro iffI conjI allI impI)
      fix i
      assume a: "retried (bakong attempts m) \<and>
                 (\<forall>i. attempts + 1 \<le> i \<and> i < maxAttempts \<longrightarrow> retried (bakong i m))"
        and b: "attempts \<le> i \<and> i < maxAttempts"
      show "retried (bakong i m)"
      proof (cases "i = attempts")
        case True
        then show ?thesis using a by simp
      next
        case False
        then have "attempts + 1 \<le> i" using b by simp
        then show ?thesis using a b by blast
      qed
    qed (use True in auto)
    show ?thesis
    proof (cases "bakong attempts m")
      case Fetch_rejects
      with True 1 split show ?thesis
        by (simp add: retry_loop.simps [of _ _ attempts] retried_def)
    next
      case (Fetch_resolves st b)
      show ?thesis
      proof (cases b)
        case None
        with Fetch_resolves True 1 split show ?thesis
          by (simp add: retry_loop.simps [of _ _ attempts] retried_def)
      next
        case (Some data)
        with Fetch_resolves True 1 split show ?thesis
          by (simp add: retry_loop.simps [of _ _ attempts] retried_def)
      qed
    qed
  qed
qed

lemma fetches_append: "fetches (xs @ ys) = fetches xs + fetches ys"
  by (simp add: fetches_def)

text \<open>The loop never sends more than \<open>maxAttempts\<close> requests to the payment switch.\<close>

lemma retry_loop_fetches_bound:
  "fetches (snd (retry_loop bakong m attempts tr)) \<le> fetches tr + (maxAttempts - attempts)"
proof (induction bakong m attempts tr rule: retry_loop.induct)
  case (1 bakong m attempts tr)
  show ?case
  proof (cases "attempts < maxAttempts")
    case False
    then show ?thesis by (simp add: retry_loop_done)
  next
    case True
    show ?thesis
    proof (cases "bakong attempts m")
      case Fetch_rejects
      with True 1 show ?thesis
        by (auto simp add: retry_loop.simps [of _ _ attempts] fetches_append) (simp_all add: fetches_def)
    next
      case (Fetch_resolves st b)
      show ?thesis
      proof (cases b)
        case None
        with Fetch_resolves True 1 show ?thesis
          by (auto simp add: retry_loop.simps [of _ _ attempts] fetches_append) (simp_all add: fetches_def)
      next
        case (Some data)
        with Fetch_resolves True 1 show ?thesis
          by (auto simp add: retry_loop.simps [of _ _ attempts] fetches_append) (simp_all add: fetches_def)
      qed
    qed
  qed
qed

text \<open>
  A 4xx answer whose body parses is handed back at once, with the switch's status and
  body, after that single request.
\<close>

lemma handler_part_000_4xx_parsed:
  "handler_part_000 (\<lambda>n m. if n = 0 then Fetch_resolves 404 (Some d) else r)
     \<lparr>request_method = ''POST'', request_json = Some h\<rparr> =
   (\<lparr>status = 404, headers = json_headers, body = Some d\<rparr>, [Fetch_bakong h])"
  by (simp add: handler_part_000_def retry_loop_step retry_loop_done maxAttempts_def ok_def)

text \<open>
  Claim C6. The claim: the endpoint makes at most 3 attempts, 1 second apart; a 4xx
  answer of the switch is returned immediately without further retries; 5xx answers and
  connection errors are retried until the attempts are used up. The source reads the
  body (\<open>await bakongResponse.json()\<close>) before it looks at the status, inside the
  \<open>try\<close>, so a 4xx answer whose body is not JSON lands in the \<open>catch\<close> and is
  retried: on a switch that answers 403 with such a body every time, the handler sends
  three requests, sleeps twice, and answers 500 with \<open>responseCode\<close> 1 instead of
  handing the 403 back.
\<close>

theorem verify_endpoint_retries_unparsed_4xx:
  "handler_part_000 (\<lambda>n m. Fetch_resolves 403 None)
     \<lparr>request_method = ''POST'', request_json = Some (Some ''abc'')\<rparr> =
   (\<lparr>status = 500, headers = json_headers,
     body = Some \<lparr>responseCode = Some 1,
                   error = Some ''Failed to verify payment after multiple attempts''\<rparr>\<rparr>,
    [Fetch_bakong (Some ''abc''), Console_error ''Attempt failed'', Sleep 1000,
     Fetch_bakong (Some ''abc''), Console_error ''Attempt failed'', Sleep 1000,
     Fetch_bakong (Some ''abc''), Console_error ''Attempt failed''])"
  by (simp add: handler_part_000_def retry_loop_step retry_loop_done maxAttempts_def
      retryDelay_def)

text \<open>
  Claim C10. When the endpoint handles a POST and either reading the request body
  throws or all \<open>maxAttempts\<close> attempts are retried (the retry budget is used up), the
  response has status 500 and its JSON body carries \<open>responseCode\<close> 1, the code that
  the payment switch uses for a payment that is still pending.
\<close>

theorem verify_endpoint_failure_500_responseCode_1:
  assumes "request_method req = ''POST''"
    and "request_json req = None \<or>
         (\<exists>h. request_json req = Some h \<and> (\<forall>i<maxAttempts. retried (bakong i h)))"
  shows "status (fst (handler_part_000 bakong req)) = 500 \<and>
         map_option responseCode (body (fst (handler_part_000 bakong req))) = Some (Some 1)"
proof (cases "request_json req")
  case None
  with assms(1) show ?thesis by (simp add: handler_part_000_def)
next
  case (Some h)
  with assms(2) have "\<forall>i. 0 \<le> i \<and> i < maxAttempts \<longrightarrow> retried (bakong i h)" by simp
  then have "fst (retry_loop bakong h 0 []) = None"
    by (simp only: retry_loop_None_iff)
  then obtain tr where "retry_loop bakong h 0 [] = (None, tr)"
    by (cases "retry_loop bakong h 0 []") simp
  with Some assms(1) show ?thesis by (simp add: handler_part_000_def)
qed

theorem verify_endpoint_failure_500_responseCode_1_witness:
  "status (fst (handler_part_000 (\<lambda>n h. Fetch_resolves 503 (Some \<lparr>responseCode = None, error = None\<rparr>))
                  \<lparr>request_method = ''POST'', request_json = Some (Some ''abc'')\<rparr>)) = 500 \<and>
   map_option responseCode
     (body (fst (handler_part_000 (\<lambda>n h. Fetch_resolves 503 (Some \<lparr>responseCode = None, error = None\<rparr>))
                  \<lparr>request_method = ''POST'', request_json = Some (Some ''abc'')\<rparr>))) = Some (Some 1)"
  using verify_endpoint_failure_500_responseCode_1
    [of "\<lparr>request_method = ''POST'', request_json = Some (Some ''abc'')\<rparr>"
        "\<lambda>n h. Fetch_resolves 503 (Some \<lparr>responseCode = None, error = None\<rparr>)"]
  by (simp add: retried_def ok_def)

section \<open>Properties of the reconciliation cron job\<close>

subsection \<open>What the helper functions leave alone\<close>

lemma emit_fields [simp]:
  "payment_tokens (emit es s) = payment_tokens s"
  "results (emit es s) = results s"
  "messageQueue (emit es s) = messageQueue s"
  "isProcessingQueue (emit es s) = isProcessingQueue s"
  "calls (emit es s) = calls s"
  "trace (emit es s) = trace s @ es"
  by (simp_all add: emit_def)

lemma telegram_sends_append:
  "telegram_sends (xs @ ys) = telegram_sends xs @ telegram_sends ys"
  by (simp add: telegram_sends_def)

lemma telegram_sends_Cons:
  "telegram_sends [] = []"
  "telegram_sends (ev # evs) =
     (case ev of Fetch_telegram c t \<Rightarrow> [ev] | _ \<Rightarrow> []) @ telegram_sends evs"
  by (simp_all add: telegram_sends_def split: event.splits)

lemma verifyPayment_part_001_fst:
  "fst (verifyPayment_part_001 e s h) = settled (bakong_api e (calls s) h)"
  by (cases "bakong_api e (calls s) h")
     (auto simp add: verifyPayment_part_001_def settled_def Let_def split: option.splits)

lemma verifyPayment_part_001_settled:
  "settled (bakong_api e (calls s) h) \<Longrightarrow>
   verifyPayment_part_001 e s h =
     (True, emit [Fetch_bakong (Some h)] (s\<lparr>calls := Suc (calls s)\<rparr>))"
  by (cases "bakong_api e (calls s) h")
     (auto simp add: verifyPayment_part_001_def settled_def Let_def split: option.splits)

lemma verifyPayment_part_001_fields:
  "payment_tokens (snd (verifyPayment_part_001 e s h)) = payment_tokens s"
  "results (snd (verifyPayment_part_001 e s h)) = results s"
  "messageQueue (snd (verifyPayment_part_001 e s h)) = messageQueue s"
  "isProcessingQueue (snd (verifyPayment_part_001 e s h)) = isProcessingQueue s"
  "calls (snd (verifyPayment_part_001 e s h)) = calls s + 1"
  "telegram_sends (trace (snd (verifyPayment_part_001 e s h))) = telegram_sends (trace s)"
  by (cases "bakong_api e (calls s) h";
      auto simp add: verifyPayment_part_001_def Let_def emit_def telegram_sends_def
        split: option.splits)+

lemma sendTelegramMessage_fields:
  "payment_tokens (snd (sendTelegramMessage e s c t rc)) = payment_tokens s"
  "results (snd (sendTelegramMessage e s c t rc)) = results s"
  "isProcessingQueue (snd (sendTelegramMessage e s c t rc)) = isProcessingQueue s"
  "calls (snd (sendTelegramMessage e s c t rc)) = calls s + 1"
  "telegram_sends (trace (snd (sendTelegramMessage e s c t rc))) =
     telegram_sends (trace s) @ [Fetch_telegram c t]"
  by (cases "telegram_api e (calls s) c t";
      auto simp add: sendTelegramMessage_def Let_def emit_def telegram_sends_def)+

lemma sendTelegramMessage_trace:
  "\<exists>logs. trace (snd (sendTelegramMessage e s c t rc)) = trace s @ Fetch_telegram c t # logs \<and>
          telegram_sends logs = []"
  by (cases "telegram_api e (calls s) c t";
      auto simp add: sendTelegramMessage_def Let_def emit_def telegram_sends_def)

subsection \<open>The loop body, case by case\<close>

lemma process_token_first_unsettled:
  assumes "md5 od = Some h" and "h \<noteq> []" and "\<not> settled (bakong_api e (calls s) h)"
  shows "process_token e s tok od = snd (verifyPayment_part_001 e s h)"
proof -
  obtain b s1 where v: "verifyPayment_part_001 e s h = (b, s1)"
    by (cases "verifyPayment_part_001 e s h")
  with verifyPayment_part_001_fst [of e s h] assms(3) have "\<not> b" by simp
  with v assms(1,2) show ?thesis by (simp add: process_token_def)
qed

lemma process_token_second_unsettled:
  assumes "md5 od = Some h" and "h \<noteq> []" and "settled (bakong_api e (calls s) h)"
    and "\<not> settled (bakong_api e (calls s + 1) h)"
  shows "process_token e s tok od =
         snd (verifyPayment_part_001 e
                (emit [Fetch_bakong (Some h)] (s\<lparr>calls := Suc (calls s)\<rparr>)) h)"
proof -
  let ?s1 = "emit [Fetch_bakong (Some h)] (s\<lparr>calls := Suc (calls s)\<rparr>)"
  have c: "calls ?s1 = calls s + 1" by simp
  obtain b s2 where v: "verifyPayment_part_001 e ?s1 h = (b, s2)"
    by (cases "verifyPayment_part_001 e ?s1 h")
  with verifyPayment_part_001_fst [of e ?s1 h] assms(4) c have "\<not> b" by simp
  with v assms(1,2) verifyPayment_part_001_settled [OF assms(3)] show ?thesis
    by (simp add: process_token_def)
qed

lemma process_token_both_settled:
  assumes "md5 od = Some h" and "h \<noteq> []" and "settled (bakong_api e (calls s) h)"
    and "settled (bakong_api e (calls s + 1) h)"
  shows "process_token e s tok od =
         (let s2 = emit [Fetch_bakong (Some h), Fetch_bakong (Some h)]
                     (s\<lparr>calls := calls s + 2\<rparr>);
              s3 = emit [Update_used (token_id tok)] (s2\<lparr>calls := calls s2 + 1\<rparr>) in
          if supabase_update e (calls s + 2) (token_id tok) then
            emit [Console_error ''Error updating token:''] s3
          else
            (case sendTelegramMessage e
                    (s3\<lparr>payment_tokens := mark_used (token_id tok) (payment_tokens s3)\<rparr>)
                    (TELEGRAM_CHAT_ID e) (mainMessage od) 0 of
               (mainSuccess, s4) \<Rightarrow>
                 (case sendTelegramMessage e s4 TELEGRAM_ORDERS_CHAT_ID (orderMessage od) 0 of
                    (ordersSuccess, s5) \<Rightarrow>
                      s5\<lparr>results := results s5 @
                           [\<lparr>tokenId = token_id tok, verified = True,
                             mainGroupSent = mainSuccess,
                             ordersGroupSent = ordersSuccess\<rparr>]\<rparr>)))"
proof -
  let ?s1 = "emit [Fetch_bakong (Some h)] (s\<lparr>calls := Suc (calls s)\<rparr>)"
  have c: "calls ?s1 = calls s + 1" by simp
  have v1: "verifyPayment_part_001 e s h = (True, ?s1)"
    by (rule verifyPayment_part_001_settled [OF assms(3)])
  have "settled (bakong_api e (calls ?s1) h)" using assms(4) c by simp
  then have v2: "verifyPayment_part_001 e ?s1 h =
      (True, emit [Fetch_bakong (Some h)] (?s1\<lparr>calls := Suc (calls ?s1)\<rparr>))"
    by (rule verifyPayment_part_001_settled)
  show ?thesis using assms(1,2)
    by (simp add: process_token_def v1 v2 Let_def) (simp add: emit_def)
qed

lemma process_token_fulfilled:
  assumes "md5 od = Some h" and "h \<noteq> []"
    and "settled (bakong_api e (calls s) h)" and "settled (bakong_api e (calls s + 1) h)"
    and "\<not> supabase_update e (calls s + 2) (token_id tok)"
  shows "payment_tokens (process_token e s tok od) = mark_used (token_id tok) (payment_tokens s)"
    and "\<exists>b4 b5. results (process_token e s tok od) =
           results s @ [\<lparr>tokenId = token_id tok, verified = True, mainGroupSent = b4,
                         ordersGroupSent = b5\<rparr>]"
    and "\<exists>post. trace (process_token e s tok od) =
                  trace s @ [Fetch_bakong (Some h), Fetch_bakong (Some h),
                             Update_used (token_id tok)] @ post \<and>
                telegram_sends post =
                  [Fetch_telegram (TELEGRAM_CHAT_ID e) (mainMessage od),
                   Fetch_telegram TELEGRAM_ORDERS_CHAT_ID (orderMessage od)]"
proof -
  let ?s3 = "(emit [Update_used (token_id tok)]
               ((emit [Fetch_bakong (Some h), Fetch_bakong (Some h)]
                   (s\<lparr>calls := Suc (Suc (calls s))\<rparr>))
                  \<lparr>calls := Suc (Suc (Suc (calls s)))\<rparr>))
             \<lparr>payment_tokens := mark_used (token_id tok) (payment_tokens s)\<rparr>"
  obtain b4 s4 where
    m: "sendTelegramMessage e ?s3 (TELEGRAM_CHAT_ID e) (mainMessage od) 0 = (b4, s4)"
    by (cases "sendTelegramMessage e ?s3 (TELEGRAM_CHAT_ID e) (mainMessage od) 0")
  obtain b5 s5 where
    o: "sendTelegramMessage e s4 TELEGRAM_ORDERS_CHAT_ID (orderMessage od) 0 = (b5, s5)"
    by (cases "sendTelegramMessage e s4 TELEGRAM_ORDERS_CHAT_ID (orderMessage od) 0")
  have pt: "process_token e s tok od =
            s5\<lparr>results := results s5 @ [\<lparr>tokenId = token_id tok, verified = True,
                                         mainGroupSent = b4, ordersGroupSent = b5\<rparr>]\<rparr>"
    using assms(5) m o by (simp add: process_token_both_settled [OF assms(1-4)] Let_def)
  have s4: "s4 = snd (sendTelegramMessage e ?s3 (TELEGRAM_CHAT_ID e) (mainMessage od) 0)"
    using m by simp
  have s5: "s5 = snd (sendTelegramMessage e s4 TELEGRAM_ORDERS_CHAT_ID (orderMessage od) 0)"
    using o by simp
  show "payment_tokens (process_token e s tok od) = mark_used (token_id tok) (payment_tokens s)"
    by (simp add: pt s5 sendTelegramMessage_fields s4)
  have "results s5 = results s"
    by (simp add: s5 sendTelegramMessage_fields s4)
  then show "\<exists>b4 b5. results (process_token e s tok od) =
           results s @ [\<lparr>tokenId = token_id tok, verified = True, mainGroupSent = b4,
                         ordersGroupSent = b5\<rparr>]"
    by (simp add: pt)
  obtain l4 where
    l4: "trace s4 = trace ?s3 @ Fetch_telegram (TELEGRAM_CHAT_ID e) (mainMessage od) # l4"
      "telegram_sends l4 = []"
    using sendTelegramMessage_trace [of e ?s3 "TELEGRAM_CHAT_ID e" "mainMessage od" 0] s4
    by auto
  obtain l5 where
    l5: "trace s5 = trace s4 @ Fetch_telegram TELEGRAM_ORDERS_CHAT_ID (orderMessage od) # l5"
      "telegram_sends l5 = []"
    using sendTelegramMessage_trace [of e s4 TELEGRAM_ORDERS_CHAT_ID "orderMessage od" 0] s5
    by auto
  have tr: "trace (process_token e s tok od) =
      trace s @ [Fetch_bakong (Some h), Fetch_bakong (Some h), Update_used (token_id tok)] @
        (Fetch_telegram (TELEGRAM_CHAT_ID e) (mainMessage od) # l4 @
         Fetch_telegram TELEGRAM_ORDERS_CHAT_ID (orderMessage od) # l5)"
    by (simp add: pt l5 l4)
  have sends: "telegram_sends (Fetch_telegram (TELEGRAM_CHAT_ID e) (mainMessage od) # l4 @
         Fetch_telegram TELEGRAM_ORDERS_CHAT_ID (orderMessage od) # l5) =
       [Fetch_telegram (TELEGRAM_CHAT_ID e) (mainMessage od),
        Fetch_telegram TELEGRAM_ORDERS_CHAT_ID (orderMessage od)]"
    using l4(2) l5(2) by (simp add: telegram_sends_def)
  show "\<exists>post. trace (process_token e s tok od) =
                  trace s @ [Fetch_bakong (Some h), Fetch_bakong (Some h),
                             Update_used (token_id tok)] @ post \<and>
                telegram_sends post =
                  [Fetch_telegram (TELEGRAM_CHAT_ID e) (mainMessage od),
                   Fetch_telegram TELEGRAM_ORDERS_CHAT_ID (orderMessage od)]"
    using tr sends by blast
qed

lemma process_token_update_failed:
  assumes "md5 od = Some h" and "h \<noteq> []"
    and "settled (bakong_api e (calls s) h)" and "settled (bakong_api e (calls s + 1) h)"
    and "supabase_update e (calls s + 2) (token_id tok)"
  shows "payment_tokens (process_token e s tok od) = payment_tokens s"
    and "results (process_token e s tok od) = results s"
    and "messageQueue (process_token e s tok od) = messageQueue s"
    and "telegram_sends (trace (process_token e s tok od)) = telegram_sends (trace s)"
  using assms(5)
  by (simp_all add: process_token_both_settled [OF assms(1-4)] Let_def telegram_sends_def)

text \<open>
  Every run of the loop body either fulfils its token (marks it used, reports it, sends
  two notifications) or leaves table, report and notifications as they were.
\<close>

lemma process_token_effect:
  "(payment_tokens (process_token e s tok od) = payment_tokens s \<and>
    results (process_token e s tok od) = results s \<and>
    telegram_sends (trace (process_token e s tok od)) = telegram_sends (trace s))
   \<or> (payment_tokens (process_token e s tok od) = mark_used (token_id tok) (payment_tokens s) \<and>
       (\<exists>r. results (process_token e s tok od) = results s @ [r] \<and> tokenId r = token_id tok) \<and>
       length (telegram_sends (trace (process_token e s tok od))) =
         length (telegram_sends (trace s)) + 2)"
proof (cases "md5 od")
  case None
  then show ?thesis by (simp add: process_token_def)
next
  case (Some h)
  show ?thesis
  proof (cases "h = []")
    case True
    with Some show ?thesis by (simp add: process_token_def)
  next
    case False
    show ?thesis
    proof (cases "settled (bakong_api e (calls s) h)")
      case first: False
      show ?thesis
        by (simp add: process_token_first_unsettled [OF Some False first]
            verifyPayment_part_001_fields)
    next
      case first: True
      show ?thesis
      proof (cases "settled (bakong_api e (calls s + 1) h)")
        case second: False
        show ?thesis
          by (simp add: process_token_second_unsettled [OF Some False first second]
              verifyPayment_part_001_fields telegram_sends_append telegram_sends_Cons)
      next
        case second: True
        show ?thesis
        proof (cases "supabase_update e (calls s + 2) (token_id tok)")
          case True
          show ?thesis
            using process_token_update_failed [OF Some False first second True] by simp
        next
          case upd: False
          obtain post where
            "trace (process_token e s tok od) =
               trace s @ [Fetch_bakong (Some h), Fetch_bakong (Some h),
                          Update_used (token_id tok)] @ post"
            "telegram_sends post =
               [Fetch_telegram (TELEGRAM_CHAT_ID e) (mainMessage od),
                Fetch_telegram TELEGRAM_ORDERS_CHAT_ID (orderMessage od)]"
            using process_token_fulfilled(3) [OF Some False first second upd] by blast
          then have "length (telegram_sends (trace (process_token e s tok od))) =
                     length (telegram_sends (trace s)) + 2"
            by (simp add: telegram_sends_append telegram_sends_Cons)
          moreover obtain b4 b5 where "results (process_token e s tok od) =
             results s @ [\<lparr>tokenId = token_id tok, verified = True, mainGroupSent = b4,
                           ordersGroupSent = b5\<rparr>]"
            using process_token_fulfilled(2) [OF Some False first second upd] by blast
          ultimately show ?thesis
            using process_token_fulfilled(1) [OF Some False first second upd] by simp
        qed
      qed
    qed
  qed
qed

subsection \<open>The whole loop\<close>

lemma sweep_loop_results:
  "tokenId ` set (results (snd (sweep_loop e toks s))) \<subseteq>
     tokenId ` set (results s) \<union> token_id ` set toks"
proof (induction toks arbitrary: s)
  case Nil
  then show ?case by simp
next
  case (Cons tok toks)
  show ?case
  proof (cases "order_data tok")
    case None
    then show ?thesis by auto
  next
    case (Some od)
    have "tokenId ` set (results (process_token e s tok od)) \<subseteq>
          tokenId ` set (results s) \<union> {token_id tok}"
      using process_token_effect [of e s tok od] by auto
    with Cons.IH [of "process_token e s tok od"] Some show ?thesis by auto
  qed
qed

lemma sweep_loop_sends:
  "length (telegram_sends (trace (snd (sweep_loop e toks s)))) + 2 * length (results s) =
   length (telegram_sends (trace s)) + 2 * length (results (snd (sweep_loop e toks s)))"
proof (induction toks arbitrary: s)
  case Nil
  then show ?case by simp
next
  case (Cons tok toks)
  show ?case
  proof (cases "order_data tok")
    case None
    then show ?thesis by simp
  next
    case (Some od)
    have "length (telegram_sends (trace (process_token e s tok od))) + 2 * length (results s) =
          length (telegram_sends (trace s)) + 2 * length (results (process_token e s tok od))"
      using process_token_effect [of e s tok od] by auto
    with Cons.IH [of "process_token e s tok od"] Some show ?thesis by simp
  qed
qed

lemma set_select_pending:
  "set (select_pending c tbl) = {t \<in> set tbl. \<not> used t \<and> c < created_at t}"
  by (auto simp add: select_pending_def)

subsection \<open>The queue drain\<close>

text \<open>
  While every Telegram request rejects, a head whose \<open>retryCount\<close> is below
  \<open>MAX_RETRIES\<close> stays at the head: the failed send appends a copy with the count
  raised, and the head's own count never changes. No number of iterations ends the loop.
\<close>

lemma drain_stuck:
  "messageQueue s \<noteq> [] \<Longrightarrow> retryCount (hd (messageQueue s)) < MAX_RETRIES \<Longrightarrow>
   telegram_api e = (\<lambda>n c t. Tg_rejects) \<Longrightarrow> drain fuel e s = None"
proof (induction fuel arbitrary: s)
  case 0
  then show ?case by simp
next
  case (Suc fuel)
  then obtain message rest where q: "messageQueue s = message # rest"
    by (cases "messageQueue s") auto
  show ?case using Suc.prems q
    by (auto simp: sendTelegramMessage_def emit_def Let_def intro!: Suc.IH)
qed

lemma processMessageQueue_stuck:
  "\<not> isProcessingQueue s \<Longrightarrow> messageQueue s \<noteq> [] \<Longrightarrow>
   retryCount (hd (messageQueue s)) < MAX_RETRIES \<Longrightarrow>
   telegram_api e = (\<lambda>n c t. Tg_rejects) \<Longrightarrow> processMessageQueue fuel e s = None"
  by (simp add: processMessageQueue_def drain_stuck)

lemma processMessageQueue_head_retried_forever:
  "\<forall>fuel. processMessageQueue fuel (ex_env (\<lambda>n. paid) Tg_rejects False) ex_queue_state = None"
  by (simp add: processMessageQueue_stuck ex_queue_state_def ex_state_def ex_env_def
      MAX_RETRIES_def)

text \<open>A drain is not entered while another one is marked as running.\<close>

lemma processMessageQueue_single_flight:
  "isProcessingQueue s \<Longrightarrow> processMessageQueue fuel e s = Some s"
  by (simp add: processMessageQueue_def)

subsection \<open>What a pass does to the table\<close>

lemma fold_mark_used:
  "fold mark_used ids tbl =
     map (\<lambda>t. if token_id t \<in> set ids then t\<lparr>used := True\<rparr> else t) tbl"
proof (induction ids arbitrary: tbl)
  case Nil
  then show ?case by simp
next
  case (Cons i ids)
  have "fold mark_used (i # ids) tbl =
        map (\<lambda>t. if token_id t \<in> set ids then t\<lparr>used := True\<rparr> else t) (mark_used i tbl)"
    by (simp add: Cons.IH)
  also have "\<dots> = map (\<lambda>t. if token_id t \<in> set (i # ids) then t\<lparr>used := True\<rparr> else t) tbl"
    by (auto simp add: mark_used_def)
  finally show ?case .
qed

lemma sweep_loop_table:
  "\<exists>ids. set ids \<subseteq> token_id ` set toks \<and>
         payment_tokens (snd (sweep_loop e toks s)) = fold mark_used ids (payment_tokens s) \<and>
         map tokenId (results (snd (sweep_loop e toks s))) = map tokenId (results s) @ ids"
proof (induction toks arbitrary: s)
  case Nil
  show ?case by (intro exI [of _ "[]"]) simp
next
  case (Cons tok toks)
  show ?case
  proof (cases "order_data tok")
    case None
    then show ?thesis by (intro exI [of _ "[]"]) simp
  next
    case (Some od)
    let ?s1 = "process_token e s tok od"
    obtain ids0 where step: "set ids0 \<subseteq> {token_id tok}"
        "payment_tokens ?s1 = fold mark_used ids0 (payment_tokens s)"
        "map tokenId (results ?s1) = map tokenId (results s) @ ids0"
    proof (cases "results ?s1 = results s")
      case True
      with process_token_effect [of e s tok od] show ?thesis
        by (intro that [of "[]"]) auto
    next
      case False
      with process_token_effect [of e s tok od] show ?thesis
        by (intro that [of "[token_id tok]"]) auto
    qed
    obtain ids1 where rest: "set ids1 \<subseteq> token_id ` set toks"
        "payment_tokens (snd (sweep_loop e toks ?s1)) = fold mark_used ids1 (payment_tokens ?s1)"
        "map tokenId (results (snd (sweep_loop e toks ?s1))) = map tokenId (results ?s1) @ ids1"
      using Cons.IH [of ?s1] by blast
    show ?thesis
      using Some step rest by (intro exI [of _ "ids0 @ ids1"]) auto
  qed
qed

text \<open>The queue drain touches neither the table nor the report.\<close>

lemma drain_fields:
  "drain fuel e s = Some s' \<Longrightarrow>
   payment_tokens s' = payment_tokens s \<and> results s' = results s"
proof (induction fuel arbitrary: s)
  case 0
  then show ?case by (simp split: if_splits)
next
  case (Suc fuel)
  show ?case
  proof (cases "messageQueue s")
    case Nil
    with Suc.prems show ?thesis by simp
  next
    case (Cons message rest)
    obtain b s1 where send:
      "sendTelegramMessage e s (chatId message) (message_text message) (retryCount message)
         = (b, s1)"
      by (cases "sendTelegramMessage e s (chatId message) (message_text message)
                   (retryCount message)")
    then have s1: "payment_tokens s1 = payment_tokens s" "results s1 = results s"
      using sendTelegramMessage_fields(1,2)
        [of e s "chatId message" "message_text message" "retryCount message"]
      by simp_all
    show ?thesis
    proof (cases b)
      case True
      with Suc.prems Cons send
      have "drain fuel e (s1\<lparr>messageQueue := tl (messageQueue s1)\<rparr>) = Some s'" by simp
      from Suc.IH [OF this] s1 show ?thesis by simp
    next
      case False
      with Suc.prems Cons send
      have "drain fuel e
              (emit [Sleep RETRY_DELAY]
                 (if retryCount message \<ge> MAX_RETRIES
                  then s1\<lparr>messageQueue := tl (messageQueue s1)\<rparr> else s1)) = Some s'"
        by simp
      from Suc.IH [OF this] s1 show ?thesis by (simp split: if_splits)
    qed
  qed
qed

lemma processMessageQueue_fields:
  "processMessageQueue fuel e s = Some s' \<Longrightarrow>
   payment_tokens s' = payment_tokens s \<and> results s' = results s"
  by (auto simp add: processMessageQueue_def split: if_splits option.splits dest: drain_fields)

subsection \<open>Claims about the sweep\<close>

text \<open>
  Claim C3. The sweeper fulfils a pending token only after two consecutive settlement
  checks for its hash both report settled. Stated on one run of the loop body, whose
  checks are the external calls number \<open>calls s\<close> and \<open>calls s + 1\<close>: if the run
  changes the table, the report or the notifications sent, then the token has a hash and
  both checks reported settled; and if the first check reports settled and the second
  does not, then the table, the report, the queue and the notifications sent are as
  before, so the token is not fulfilled and nothing is dispatched for it.
\<close>

theorem sweep_needs_two_consecutive_settled_checks:
  "(payment_tokens (process_token e s tok od) \<noteq> payment_tokens s \<or>
    results (process_token e s tok od) \<noteq> results s \<or>
    telegram_sends (trace (process_token e s tok od)) \<noteq> telegram_sends (trace s)
    \<longrightarrow> (\<exists>h. md5 od = Some h \<and> h \<noteq> [] \<and> settled (bakong_api e (calls s) h) \<and>
             settled (bakong_api e (calls s + 1) h)))
   \<and> (\<forall>h. md5 od = Some h \<and> settled (bakong_api e (calls s) h) \<and>
           \<not> settled (bakong_api e (calls s + 1) h)
        \<longrightarrow> payment_tokens (process_token e s tok od) = payment_tokens s \<and>
            results (process_token e s tok od) = results s \<and>
            messageQueue (process_token e s tok od) = messageQueue s \<and>
            telegram_sends (trace (process_token e s tok od)) = telegram_sends (trace s))"
proof (cases "md5 od")
  case None
  then show ?thesis by (simp add: process_token_def)
next
  case (Some h)
  show ?thesis
  proof (cases "h = []")
    case True
    with Some show ?thesis by (simp add: process_token_def)
  next
    case False
    show ?thesis
    proof (cases "settled (bakong_api e (calls s) h)")
      case first: False
      then show ?thesis
        using Some False process_token_first_unsettled [OF Some False first, of tok]
        by (simp add: verifyPayment_part_001_fields)
    next
      case first: True
      show ?thesis
      proof (cases "settled (bakong_api e (calls s + 1) h)")
        case second: False
        then show ?thesis
          using Some False first
            process_token_second_unsettled [OF Some False first second, of tok]
          by (simp add: verifyPayment_part_001_fields telegram_sends_append
              telegram_sends_Cons)
      next
        case True
        with Some False first show ?thesis by simp
      qed
    qed
  qed
qed

theorem sweep_needs_two_consecutive_settled_checks_witness:
  "settled paid \<and> \<not> settled unpaid \<and>
   payment_tokens (process_token (ex_env (\<lambda>n. if n = 0 then paid else unpaid) (Tg_data True) False)
       ex_state ex_token ex_order_data) = [ex_token] \<and>
   results (process_token (ex_env (\<lambda>n. if n = 0 then paid else unpaid) (Tg_data True) False)
       ex_state ex_token ex_order_data) = [] \<and>
   telegram_sends (trace (process_token
       (ex_env (\<lambda>n. if n = 0 then paid else unpaid) (Tg_data True) False)
       ex_state ex_token ex_order_data)) = []"
  using sweep_needs_two_consecutive_settled_checks
    [of "ex_env (\<lambda>n. if n = 0 then paid else unpaid) (Tg_data True) False"
        ex_state ex_token ex_order_data]
  by (simp add: ex_env_def ex_state_def ex_order_data_def paid_def unpaid_def settled_def
      ok_def telegram_sends_def)

text \<open>
  Claim C9. In a sweep, once both checks for a token report settled, the update of
  \<open>used\<close> is the next external call (number \<open>calls s + 2\<close>). If it succeeds, the
  table has \<open>used\<close> set for the token's id whatever the two notification sends answer
  (a failed send never reverts it), and the update precedes both sends in the order of
  events. If the update returns an error, the token is skipped: the table, the report
  and the queue are unchanged and no notification is sent, so the row is still unused
  for a later sweep.
\<close>

theorem sweep_marks_used_before_notifying:
  assumes "md5 od = Some h" and "h \<noteq> []"
    and "settled (bakong_api e (calls s) h)" and "settled (bakong_api e (calls s + 1) h)"
  shows "(\<not> supabase_update e (calls s + 2) (token_id tok) \<longrightarrow>
            payment_tokens (process_token e s tok od) =
              mark_used (token_id tok) (payment_tokens s) \<and>
            (\<exists>post. trace (process_token e s tok od) =
                      trace s @ [Fetch_bakong (Some h), Fetch_bakong (Some h),
                                 Update_used (token_id tok)] @ post \<and>
                    telegram_sends post =
                      [Fetch_telegram (TELEGRAM_CHAT_ID e) (mainMessage od),
                       Fetch_telegram TELEGRAM_ORDERS_CHAT_ID (orderMessage od)]))
       \<and> (supabase_update e (calls s + 2) (token_id tok) \<longrightarrow>
            payment_tokens (process_token e s tok od) = payment_tokens s \<and>
            results (process_token e s tok od) = results s \<and>
            messageQueue (process_token e s tok od) = messageQueue s \<and>
            telegram_sends (trace (process_token e s tok od)) = telegram_sends (trace s))"
proof (cases "supabase_update e (calls s + 2) (token_id tok)")
  case True
  then show ?thesis
    using process_token_update_failed [OF assms True] by simp
next
  case False
  then show ?thesis
    using process_token_fulfilled(1) [OF assms False]
      process_token_fulfilled(3) [OF assms False]
    by simp
qed

theorem sweep_marks_used_before_notifying_witness:
  "map used (payment_tokens (process_token (ex_env (\<lambda>n. paid) Tg_rejects False)
       ex_state ex_token ex_order_data)) = [True] \<and>
   map used (payment_tokens (process_token (ex_env (\<lambda>n. paid) (Tg_data True) True)
       ex_state ex_token ex_order_data)) = [False] \<and>
   telegram_sends (trace (process_token (ex_env (\<lambda>n. paid) (Tg_data True) True)
       ex_state ex_token ex_order_data)) = []"
  using sweep_marks_used_before_notifying
    [of ex_order_data "''h1''" "ex_env (\<lambda>n. paid) Tg_rejects False" ex_state ex_token]
    sweep_marks_used_before_notifying
    [of ex_order_data "''h1''" "ex_env (\<lambda>n. paid) (Tg_data True) True" ex_state ex_token]
  by (simp add: ex_env_def ex_state_def ex_order_data_def ex_token_def paid_def settled_def
      ok_def mark_used_def telegram_sends_def)

text \<open>
  Claim C8. The claim: the queue drain is single-flight and first-in first-out, every
  queued message is retried at most \<open>MAX_RETRIES\<close> times, 1 second apart, before it
  is dropped, so a drain over a finite queue terminates and notification failures never
  block the fulfilment path. On the source, a POST to the cron handler with one paid
  pending token, while every Telegram request rejects, never gets a response: the two
  failed sends queue two messages with \<open>retryCount\<close> 1, and the drain that the handler
  awaits re-sends the first of them for ever, whatever number of iterations it is given.
\<close>

theorem sweep_handler_never_returns_while_telegram_rejects:
  "\<forall>fuel. handler_part_001 fuel (ex_env (\<lambda>n. paid) Tg_rejects False) ex_request ex_state = None"
  by (simp add: handler_part_001_def processMessageQueue_stuck ex_request_def ex_state_def
      ex_token_def ex_order_data_def ex_env_def paid_def select_pending_def PAYMENT_WINDOW_def
      process_token_def verifyPayment_part_001_def sendTelegramMessage_def emit_def ok_def
      mark_used_def MAX_RETRIES_def TELEGRAM_ORDERS_CHAT_ID_def Let_def)

text \<open>
  Claim C1, as stated, fails on the source: the sweep reads the rows with
  \<open>used = false\<close> and later writes \<open>used := true\<close> by id, unconditionally. Two passes
  that both read the table before either writes (here both loops run on the same read
  \<open>select_pending 0 [ex_token]\<close>, the second on the state that the first left) each
  report the token as verified, and four notifications go out for it.
\<close>

theorem overlapping_sweeps_fulfil_twice:
  "map tokenId (results (snd (sweep_loop (ex_env (\<lambda>n. paid) (Tg_data True) False)
      (select_pending 0 [ex_token]) ex_state))) = [1] \<and>
   map tokenId (results (snd (sweep_loop (ex_env (\<lambda>n. paid) (Tg_data True) False)
      (select_pending 0 [ex_token])
      ((snd (sweep_loop (ex_env (\<lambda>n. paid) (Tg_data True) False)
              (select_pending 0 [ex_token]) ex_state))\<lparr>results := []\<rparr>)))) = [1] \<and>
   length (telegram_sends (trace (snd (sweep_loop (ex_env (\<lambda>n. paid) (Tg_data True) False)
      (select_pending 0 [ex_token])
      ((snd (sweep_loop (ex_env (\<lambda>n. paid) (Tg_data True) False)
              (select_pending 0 [ex_token]) ex_state))\<lparr>results := []\<rparr>))))) = 4"
  by (simp add: ex_state_def ex_token_def ex_order_data_def ex_env_def paid_def
      select_pending_def process_token_def verifyPayment_part_001_def sendTelegramMessage_def
      emit_def ok_def mark_used_def MAX_RETRIES_def TELEGRAM_ORDERS_CHAT_ID_def Let_def
      telegram_sends_def)

text \<open>
  Claim C1, amended. Fulfilment in the sweep is not a compare-and-set. A sweep pass (a
  run of the handler that returns) sets \<open>used\<close> on exactly the rows whose id lies in a
  set \<open>U\<close> of ids of rows that its own read returned, that is rows with \<open>used = false\<close>
  and \<open>created_at\<close> after the cutoff at the time of the read; it changes no other row
  and no other field; and a completed pass reports exactly the ids in \<open>U\<close>. So a pass
  that reads the table after a token's \<open>used\<close> flag was set neither updates nor reports
  that token again. Nothing is promised for passes whose reads overlap.
\<close>

theorem sweep_pass_marks_only_rows_read_unused:
  assumes "handler_part_001 fuel e req s = Some (resp, s')"
  shows "\<exists>U. U \<subseteq> token_id ` {t \<in> set (payment_tokens s).
                      \<not> used t \<and> date_now e (calls s) - PAYMENT_WINDOW < created_at t} \<and>
             payment_tokens s' =
               map (\<lambda>t. if token_id t \<in> U then t\<lparr>used := True\<rparr> else t) (payment_tokens s) \<and>
             (\<forall>rs. snd resp = Completed_body ''Payment check completed'' rs
                \<longrightarrow> tokenId ` set rs = U)"
proof (cases "request_method req \<noteq> ''POST''")
  case True
  with assms have "s' = s" and "snd resp = Error_body ''Method not allowed''"
    by (auto simp add: handler_part_001_def)
  then show ?thesis by (intro exI [of _ "{}"]) simp
next
  case post: False
  let ?c = "date_now e (calls s) - PAYMENT_WINDOW"
  let ?s0 = "s\<lparr>calls := calls s + 1, results := []\<rparr>"
  let ?toks = "select_pending ?c (payment_tokens s)"
  show ?thesis
  proof (cases "supabase_select e (calls s)")
    case True
    with assms post have "payment_tokens s' = payment_tokens s"
      and "snd resp = Error_body ''Internal server error''"
      by (auto simp add: handler_part_001_def Let_def)
    then show ?thesis by (intro exI [of _ "{}"]) simp
  next
    case sel: False
    show ?thesis
    proof (cases "?toks = []")
      case True
      with assms post sel have "payment_tokens s' = payment_tokens s"
        and "snd resp = Message_body ''No pending payments to check''"
        by (auto simp add: handler_part_001_def Let_def)
      then show ?thesis by (intro exI [of _ "{}"]) simp
    next
      case toks: False
      obtain thrown s1 where loop: "sweep_loop e ?toks ?s0 = (thrown, s1)"
        by (cases "sweep_loop e ?toks ?s0")
      from sweep_loop_table [where e = e and toks = ?toks and s = ?s0]
      obtain ids where ids: "set ids \<subseteq> token_id ` set ?toks"
          "payment_tokens s1 = fold mark_used ids (payment_tokens ?s0)"
          "map tokenId (results s1) = map tokenId (results ?s0) @ ids"
        unfolding loop snd_conv by blast
      have sub: "set ids \<subseteq> token_id ` {t \<in> set (payment_tokens s). \<not> used t \<and> ?c < created_at t}"
        using ids(1) by (simp add: set_select_pending)
      have tbl: "payment_tokens s1 =
          map (\<lambda>t. if token_id t \<in> set ids then t\<lparr>used := True\<rparr> else t) (payment_tokens s)"
        using ids(2) by (simp add: fold_mark_used)
      have "set (map tokenId (results s1)) = set ids"
        using ids(3) by simp
      then have rep: "tokenId ` set (results s1) = set ids"
        by simp
      show ?thesis
      proof (cases thrown)
        case True
        with assms post sel toks loop have "payment_tokens s' = payment_tokens s1"
          and "snd resp = Error_body ''Internal server error''"
          by (auto simp add: handler_part_001_def Let_def)
        with sub tbl show ?thesis by (intro exI [of _ "set ids"]) simp
      next
        case False
        with assms post sel toks loop obtain s2 where
          q: "processMessageQueue fuel e s1 = Some s2"
          and out: "s' = s2" "snd resp = Completed_body ''Payment check completed'' (results s2)"
          by (auto simp add: handler_part_001_def Let_def split: option.splits)
        have "payment_tokens s2 = payment_tokens s1" and "results s2 = results s1"
          using processMessageQueue_fields [OF q] by simp_all
        with sub tbl rep out show ?thesis by (intro exI [of _ "set ids"]) simp
      qed
    qed
  qed
qed

theorem sweep_pass_marks_only_rows_read_unused_witness:
  "handler_part_001 0 (ex_env (\<lambda>n. paid) (Tg_data True) False) ex_request ex_table_state \<noteq> None \<and>
   map used (payment_tokens (snd (the (handler_part_001 0
       (ex_env (\<lambda>n. paid) (Tg_data True) False) ex_request ex_table_state)))) =
     [True, True, False] \<and>
   (\<exists>U. U \<subseteq> {1} \<and>
        payment_tokens (snd (the (handler_part_001 0
            (ex_env (\<lambda>n. paid) (Tg_data True) False) ex_request ex_table_state))) =
          map (\<lambda>t. if token_id t \<in> U then t\<lparr>used := True\<rparr> else t)
            (payment_tokens ex_table_state))"
proof -
  let ?e = "ex_env (\<lambda>n. paid) (Tg_data True) False"
  obtain resp s' where run: "handler_part_001 0 ?e ex_request ex_table_state = Some (resp, s')"
    and after: "map used (payment_tokens s') = [True, True, False]"
    by (simp add: handler_part_001_def processMessageQueue_def ex_request_def
        ex_table_state_def ex_state_def ex_token_def ex_order_data_def ex_env_def paid_def
        select_pending_def PAYMENT_WINDOW_def process_token_def verifyPayment_part_001_def
        sendTelegramMessage_def emit_def ok_def mark_used_def TELEGRAM_ORDERS_CHAT_ID_def
        Let_def)
  have read: "token_id ` {t \<in> set (payment_tokens ex_table_state).
                \<not> used t \<and> date_now ?e (calls ex_table_state) - PAYMENT_WINDOW < created_at t}
              \<subseteq> {1}"
    by (auto simp add: ex_table_state_def ex_state_def ex_token_def ex_env_def
        PAYMENT_WINDOW_def)
  from sweep_pass_marks_only_rows_read_unused [OF run]
  obtain U where U: "U \<subseteq> token_id ` {t \<in> set (payment_tokens ex_table_state).
                \<not> used t \<and> date_now ?e (calls ex_table_state) - PAYMENT_WINDOW < created_at t}"
      "payment_tokens s' =
         map (\<lambda>t. if token_id t \<in> U then t\<lparr>used := True\<rparr> else t)
           (payment_tokens ex_table_state)"
    by blast
  from U(1) read have "U \<subseteq> {1}" by (rule subset_trans)
  with U(2) after show ?thesis
    unfolding run option.sel snd_conv by (intro conjI exI [of _ U]) simp_all
qed

section \<open>Properties of the payment modal\<close>

lemma cleanup_fields [simp]:
  "modal_status (cleanup w) = modal_status w"
  "errorMessage (cleanup w) = errorMessage w"
  "showSuccessAnimation (cleanup w) = showSuccessAnimation w"
  "tokens_table (cleanup w) = tokens_table w"
  "effects (cleanup w) = effects w"
  "pollIntervalRef (cleanup w) = None"
  "qrExpired (cleanup w) = qrExpired w"
  "showMessage (cleanup w) = showMessage w"
  "md5Hash (cleanup w) = md5Hash w"
  by (simp_all add: cleanup_def)

text \<open>Once the code has expired, a poll tick sends no request and changes nothing.\<close>

lemma verifyPayment_expired: "qrExpired w \<Longrightarrow> verifyPayment r w = w"
  by (simp add: verifyPayment_def)

text \<open>
  Claim C2, as stated, fails on the source: on \<open>responseCode\<close> 0 the poller marks the
  modal successful, and that is all. With a pending, unused token in the table, the
  token is still unused afterwards and the only request made is the poll itself: no
  fulfilment step runs on the store and no notification is sent.
\<close>

theorem poller_confirmed_leaves_token_unused:
  "modal_status (verifyPayment (Axios_resolves (Some \<lparr>responseCode = Some 0, error = None\<rparr>))
                   ex_modal) = Status_success \<and>
   map used (tokens_table (verifyPayment
       (Axios_resolves (Some \<lparr>responseCode = Some 0, error = None\<rparr>)) ex_modal)) = [False] \<and>
   effects (verifyPayment (Axios_resolves (Some \<lparr>responseCode = Some 0, error = None\<rparr>))
              ex_modal) = [Axios_post ''/api/verify-payment'']"
  by (simp add: verifyPayment_def ex_modal_def ex_token_def)

text \<open>
  Claim C2, amended. When the live poller receives \<open>responseCode\<close> 0 it sets the
  modal's status to success, shows the success animation and stops polling; in handling
  that response it leaves the token store as it is and makes no request besides the poll
  itself, so it runs no fulfilment step and triggers no notification.
\<close>

theorem poller_confirmed_only_updates_modal:
  assumes "\<not> qrExpired w" and "responseCode data = Some 0"
  shows "modal_status (verifyPayment (Axios_resolves (Some data)) w) = Status_success \<and>
         showSuccessAnimation (verifyPayment (Axios_resolves (Some data)) w) \<and>
         \<not> polling (verifyPayment (Axios_resolves (Some data)) w) \<and>
         tokens_table (verifyPayment (Axios_resolves (Some data)) w) = tokens_table w \<and>
         effects (verifyPayment (Axios_resolves (Some data)) w) =
           effects w @ [Axios_post ''/api/verify-payment'']"
  using assms by (simp add: verifyPayment_def Let_def polling_def)

theorem poller_confirmed_only_updates_modal_witness:
  "\<not> qrExpired ex_modal \<and>
   showSuccessAnimation (verifyPayment
       (Axios_resolves (Some \<lparr>responseCode = Some 0, error = None\<rparr>)) ex_modal) \<and>
   tokens_table (verifyPayment
       (Axios_resolves (Some \<lparr>responseCode = Some 0, error = None\<rparr>)) ex_modal) = [ex_token]"
  using poller_confirmed_only_updates_modal
    [of ex_modal "\<lparr>responseCode = Some 0, error = None\<rparr>"]
  by (simp add: ex_modal_def)

text \<open>
  Claim C4, as stated, fails on the source in one part: on a \<open>responseCode\<close> other
  than 0 and 1 the poller aborts and shows the error, but the stored token keeps its
  status; nothing sets it to unsuccessful.
\<close>

theorem poller_failure_code_leaves_token_pending:
  "modal_status (verifyPayment
       (Axios_resolves (Some \<lparr>responseCode = Some 2, error = Some ''boom''\<rparr>)) ex_modal)
     = Status_error \<and>
   map token_status (tokens_table (verifyPayment
       (Axios_resolves (Some \<lparr>responseCode = Some 2, error = Some ''boom''\<rparr>)) ex_modal))
     = [''pending'']"
  by (simp add: verifyPayment_def ex_modal_def ex_token_def)

text \<open>
  Claim C4, amended. Each poll response is handled in one of three ways:
  \<open>responseCode\<close> 0 stops polling and marks the payment successful; \<open>responseCode\<close> 1
  only logs, so polling goes on as before and no error is shown; any other
  \<open>responseCode\<close> stops polling, sets the modal's status to error and shows the
  response's \<open>error\<close> text (or a default one), while the token store is not written.
\<close>

theorem poller_response_codes:
  assumes "\<not> qrExpired w"
  shows "(responseCode data = Some 0 \<longrightarrow>
            modal_status (verifyPayment (Axios_resolves (Some data)) w) = Status_success \<and>
            \<not> polling (verifyPayment (Axios_resolves (Some data)) w))
       \<and> (responseCode data = Some 1 \<longrightarrow>
            verifyPayment (Axios_resolves (Some data)) w =
              w\<lparr>effects := effects w @ [Axios_post ''/api/verify-payment'',
                                         Console_log ''Payment still pending for MD5:'']\<rparr> \<and>
            polling (verifyPayment (Axios_resolves (Some data)) w) = polling w)
       \<and> (responseCode data \<noteq> Some 0 \<and> responseCode data \<noteq> Some 1 \<longrightarrow>
            modal_status (verifyPayment (Axios_resolves (Some data)) w) = Status_error \<and>
            \<not> polling (verifyPayment (Axios_resolves (Some data)) w) \<and>
            errorMessage (verifyPayment (Axios_resolves (Some data)) w) =
              (if error data = None \<or> error data = Some [] then
                 ''Payment verification failed. Please try again or contact support.''
               else the (error data)) \<and>
            tokens_table (verifyPayment (Axios_resolves (Some data)) w) = tokens_table w)"
  using assms by (auto simp add: verifyPayment_def Let_def polling_def split: option.splits)

theorem poller_response_codes_witness:
  "polling ex_modal \<and>
   polling (verifyPayment (Axios_resolves (Some \<lparr>responseCode = Some 1, error = None\<rparr>))
              ex_modal) \<and>
   \<not> polling (verifyPayment (Axios_resolves (Some \<lparr>responseCode = Some 0, error = None\<rparr>))
                ex_modal) \<and>
   errorMessage (verifyPayment
       (Axios_resolves (Some \<lparr>responseCode = Some 2, error = Some ''boom''\<rparr>)) ex_modal)
     = ''boom''"
  using poller_response_codes [of ex_modal "\<lparr>responseCode = Some 1, error = None\<rparr>"]
    poller_response_codes [of ex_modal "\<lparr>responseCode = Some 0, error = None\<rparr>"]
    poller_response_codes [of ex_modal "\<lparr>responseCode = Some 2, error = Some ''boom''\<rparr>"]
  by (simp add: ex_modal_def polling_def)

text \<open>
  Claim C5, as stated, fails on the source: a poll whose request rejects takes the
  \<open>catch\<close> branch, which sets the status to error and clears the timers. A modal that
  was polling is not polling afterwards.
\<close>

theorem poller_transport_error_stops_polling:
  "polling ex_modal \<and> \<not> polling (verifyPayment Axios_rejects ex_modal) \<and>
   modal_status (verifyPayment Axios_rejects ex_modal) = Status_error"
  by (simp add: verifyPayment_def ex_modal_def polling_def)

text \<open>
  Claim C5, amended. A transport error on a poll attempt is logged and is terminal for
  the live poller: the status becomes error, the message
  \<open>Failed to verify payment. Please try again or contact support.\<close> is shown and polling
  stops; the token store is not written.
\<close>

theorem poller_transport_error_is_terminal:
  assumes "\<not> qrExpired w"
  shows "modal_status (verifyPayment Axios_rejects w) = Status_error \<and>
         errorMessage (verifyPayment Axios_rejects w) =
           ''Failed to verify payment. Please try again or contact support.'' \<and>
         \<not> polling (verifyPayment Axios_rejects w) \<and>
         effects (verifyPayment Axios_rejects w) =
           effects w @ [Axios_post ''/api/verify-payment'',
                        Console_error ''Error verifying payment:''] \<and>
         tokens_table (verifyPayment Axios_rejects w) = tokens_table w"
  using assms by (simp add: verifyPayment_def Let_def polling_def)

theorem poller_transport_error_is_terminal_witness:
  "\<not> qrExpired ex_modal \<and>
   errorMessage (verifyPayment Axios_rejects ex_modal) =
     ''Failed to verify payment. Please try again or contact support.'' \<and>
   tokens_table (verifyPayment Axios_rejects ex_modal) = [ex_token]"
  using poller_transport_error_is_terminal [of ex_modal]
  by (simp add: ex_modal_def)

subsection \<open>Binary64 rounding\<close>

lemma expo_up_numeral:
  "expo_up (numeral k) x = (if x < 2 then 0 else expo_up (pred_numeral k) (x / 2) + 1)"
  by (simp add: numeral_eq_Suc)

lemma expo_down_numeral:
  "expo_down (numeral k) x = (if 1 \<le> x then 0 else expo_down (pred_numeral k) (x * 2) - 1)"
  by (simp add: numeral_eq_Suc)

lemmas fl_eval =
  fl_def exponent_def expo_up_numeral expo_down_numeral round_half_even_def Let_def

lemmas js_eval = js_mul_def js_div_def js_sub_def literal_0_01_def Math_round_def fl_eval

text \<open>The exponent found is the binary exponent.\<close>

lemma expo_up_eq:
  "2 ^ k \<le> x \<Longrightarrow> x < 2 ^ Suc k \<Longrightarrow> k \<le> n \<Longrightarrow> expo_up n x = int k"
proof (induction n arbitrary: x k)
  case 0
  then show ?case by simp
next
  case (Suc n)
  show ?case
  proof (cases k)
    case 0
    with Suc.prems show ?thesis by simp
  next
    case (Suc j)
    with Suc.prems have "2 ^ j \<le> x / 2" and "x / 2 < 2 ^ Suc j" and "j \<le> n" by simp_all
    then have "expo_up n (x / 2) = int j" by (rule Suc.IH)
    moreover have "\<not> x < 2"
    proof -
      have "(1::real) \<le> 2 ^ j" by simp
      moreover have "2 * 2 ^ j \<le> x" using Suc.prems(1) Suc by simp
      ultimately show ?thesis by linarith
    qed
    ultimately show ?thesis using Suc by simp
  qed
qed

lemma expo_down_eq:
  "0 < x \<Longrightarrow> 1 \<le> x * 2 ^ j \<Longrightarrow> x * 2 ^ j < 2 \<Longrightarrow> j \<le> n \<Longrightarrow> expo_down n x = - int j"
proof (induction n arbitrary: x j)
  case 0
  then show ?case by simp
next
  case (Suc n)
  show ?case
  proof (cases j)
    case 0
    with Suc.prems show ?thesis by simp
  next
    case (Suc i)
    with Suc.prems have "0 < x * 2" and "1 \<le> x * 2 * 2 ^ i" and "x * 2 * 2 ^ i < 2"
      and "i \<le> n"
      by (simp_all add: mult.assoc)
    then have "expo_down n (x * 2) = - int i" by (rule Suc.IH)
    moreover have "\<not> 1 \<le> x"
    proof
      assume x: "1 \<le> x"
      have "(1::real) \<le> 2 ^ i" by simp
      with x have "1 * 1 \<le> x * 2 ^ i" by (intro mult_mono) simp_all
      moreover have "x * 2 ^ i * 2 < 2" using Suc.prems(3) Suc by (simp add: mult.assoc mult.commute)
      ultimately show False by linarith
    qed
    ultimately show ?thesis using Suc by simp
  qed
qed

lemma exponent_eq:
  "2 powi k \<le> x \<Longrightarrow> x < 2 powi (k + 1) \<Longrightarrow> - 1022 \<le> k \<Longrightarrow> k \<le> 1023 \<Longrightarrow> exponent x = k"
proof (cases "0 \<le> k")
  case True
  assume a: "2 powi k \<le> x" "x < 2 powi (k + 1)" "k \<le> 1023"
  from True have k: "k = int (nat k)" by simp
  have "(2::real) powi k = 2 ^ nat k" using True by (simp add: power_int_def)
  moreover have "(2::real) powi (k + 1) = 2 ^ Suc (nat k)"
    using True by (simp add: power_int_def nat_add_distrib)
  ultimately have b: "2 ^ nat k \<le> x" "x < 2 ^ Suc (nat k)" using a by simp_all
  have "(1::real) \<le> 2 ^ nat k" by simp
  with b have "1 \<le> x" by linarith
  moreover have "expo_up 1023 x = int (nat k)"
    using b a(3) by (intro expo_up_eq) simp_all
  ultimately show ?thesis using k by (simp add: exponent_def)
next
  case False
  assume a: "2 powi k \<le> x" "x < 2 powi (k + 1)" "- 1022 \<le> k"
  define j where "j = nat (- k)"
  from False have k: "k = - int j" and j: "0 < j" by (simp_all add: j_def)
  have p: "(2::real) powi k = 1 / 2 ^ j" using k by (simp add: power_int_def field_simps)
  have q: "(2::real) powi (k + 1) = 2 / 2 ^ j"
  proof -
    obtain i where i: "j = Suc i" using j by (cases j) auto
    then have "k + 1 = - int i" using k by simp
    then have "(2::real) powi (k + 1) = 1 / 2 ^ i" by (simp add: power_int_def field_simps)
    then show ?thesis using i by simp
  qed
  have pos: "0 < x" using a(1) p by (smt (verit) divide_pos_pos zero_less_power zero_less_one)
  have "1 / 2 ^ j \<le> x" and "x < 2 / 2 ^ j" using a(1,2) p q by simp_all
  then have b: "1 \<le> x * 2 ^ j" "x * 2 ^ j < 2"
    by (simp_all add: pos_divide_le_eq pos_less_divide_eq)
  have lt: "x < 1"
  proof -
    have "(2::real) \<le> 2 ^ j" using j by (cases j) auto
    then have "2 / 2 ^ j \<le> (1::real)" by (simp add: field_simps)
    with a(2) q show ?thesis by linarith
  qed
  have "expo_down 1022 x = - int j"
    using pos b a(3) k by (intro expo_down_eq) simp_all
  with lt k show ?thesis by (simp add: exponent_def)
qed

text \<open>
  \<open>fl\<close> returns a multiple of the quantum of its argument's binade, at most half a
  quantum away from the argument.
\<close>

lemma round_half_even_near: "\<bar>of_int (round_half_even y) - y\<bar> \<le> 1 / 2"
  by (auto simp add: round_half_even_def Let_def)

lemma fl_near:
  assumes "x \<noteq> 0"
  shows "\<bar>fl x - x\<bar> \<le> 2 powi (exponent \<bar>x\<bar> - 53)"
proof -
  let ?q = "(2::real) powi (exponent \<bar>x\<bar> - 52)"
  have q: "0 < ?q" by simp
  have "fl x - x = (of_int (round_half_even (x / ?q)) - x / ?q) * ?q"
    using assms q by (simp add: fl_def Let_def field_simps)
  then have "\<bar>fl x - x\<bar> = \<bar>of_int (round_half_even (x / ?q)) - x / ?q\<bar> * ?q"
    using q by (simp add: abs_mult)
  also have "\<dots> \<le> 1 / 2 * ?q"
    using round_half_even_near [of "x / ?q"] q by (intro mult_right_mono) simp_all
  also have "1 / 2 * ?q = 2 powi (exponent \<bar>x\<bar> - 53)"
  proof -
    have "(2::real) powi (exponent \<bar>x\<bar> - 52) = 2 powi (exponent \<bar>x\<bar> - 53 + 1)" by simp
    also have "\<dots> = 2 powi (exponent \<bar>x\<bar> - 53) * 2"
      by (subst power_int_add) simp_all
    finally show ?thesis by simp
  qed
  finally show ?thesis .
qed

text \<open>
  Values of the model against the values of binary64: the decimal literals \<open>3.18\<close>
  and \<open>0.01\<close> as the nearest binary64 numbers, and numbers that are binary64 already.
\<close>

lemma fl_values:
  "fl (318 / 100) = 7160723407519089 / 2251799813685248"
  "fl (1 / 100) = 5764607523034235 / 576460752303423488"
  "fl 10 = 10"
  "fl (3 / 8) = 3 / 8"
  by (simp_all add: fl_eval)

subsection \<open>Storing the payment\<close>

text \<open>For a reseller with an override row, the re-read price is the override.\<close>

lemma verifyCurrentPrice_reseller:
  "(\<And>tbl. select_product e tbl (map_option product_id (product f)) = Some p) \<Longrightarrow>
   isReseller e \<Longrightarrow>
   select_reseller_price e (map_option product_id (product f)) (game f) = Some rp \<Longrightarrow>
   verifyCurrentPrice e f = Some rp"
  by (simp add: verifyCurrentPrice_def)

lemma verifyCurrentPrice_ex: "verifyCurrentPrice (ex_store_env p) f = Some p"
  by (simp add: verifyCurrentPrice_def ex_store_env_def)

text \<open>When the price cannot be re-read, nothing is stored either.\<close>

lemma storePayment_price_unavailable:
  "verifyCurrentPrice e f = None \<Longrightarrow>
   fst (storePayment e f discountPercent h w) = None \<and>
   tokens_table (snd (storePayment e f discountPercent h w)) = tokens_table w"
  by (simp add: storePayment_def store_failed_def)

text \<open>The two ways on from the comparison.\<close>

lemma storePayment_refused:
  "verifyCurrentPrice e f = Some cp \<Longrightarrow>
   \<bar>js_sub (expectedFinalAmount cp d) (finalAmount f d)\<bar> > literal_0_01 \<Longrightarrow>
   storePayment e f d h w =
     store_failed ''Price has changed. Please refresh and try again.'' w"
  by (simp add: storePayment_def)

lemma storePayment_accepted:
  "verifyCurrentPrice e f = Some cp \<Longrightarrow>
   \<not> \<bar>js_sub (expectedFinalAmount cp d) (finalAmount f d)\<bar> > literal_0_01 \<Longrightarrow>
   (\<And>oi. create_payment_token e h ''pending'' oi (tokens_table w) = Inr (tok, tbl)) \<Longrightarrow>
   storePayment e f d h w =
     (Some tok, w\<lparr>transactionId := ''tb'' @ random_tx e, tokens_table := tbl\<rparr>)"
  by (simp add: storePayment_def Let_def)

lemma create_payment_token_ex:
  "create_payment_token (ex_store_env p) h st oi tbl = Inr (''tok'', tbl @ [ex_token])"
  by (simp add: ex_store_env_def)

text \<open>
  The amounts of the source on three inputs where binary64 and exact arithmetic part:
  a price of 1.15 with 50 percent off is proposed as 0.57; a price of 3.16 with 25
  percent off, re-read as 3.18, is stored (2.38 against 2.37); and an unchanged price of
  1.34 with 25 percent off is refused (1.00 against 1.01).
\<close>

lemmas form_eval = finalAmount_def priced_def ex_form_def ex_product_def

lemma finalAmount_1_15_half_off:
  "finalAmount (priced (fl (115 / 100))) 50 = fl (57 / 100)"
  by (simp add: form_eval) (simp add: js_eval)

lemma amounts_3_16_reread_3_18:
  "finalAmount (priced (fl (316 / 100))) 25 = fl (237 / 100)"
  "expectedFinalAmount (fl (318 / 100)) 25 = fl (238 / 100)"
  "\<not> \<bar>js_sub (fl (238 / 100)) (fl (237 / 100))\<bar> > literal_0_01"
    apply (simp add: form_eval)
    apply (simp add: js_eval)
   apply (simp add: expectedFinalAmount_def js_eval)
  apply (simp add: js_eval)
  done

lemma storePayment_3_16_reread_3_18:
  "fst (storePayment (ex_store_env (fl (318 / 100))) (priced (fl (316 / 100))) 25 ''h1''
          ex_modal) = Some ''tok''"
proof -
  have "\<not> \<bar>js_sub (expectedFinalAmount (fl (318 / 100)) 25)
              (finalAmount (priced (fl (316 / 100))) 25)\<bar> > literal_0_01"
    by (simp only: amounts_3_16_reread_3_18 not_False_eq_True)
  from storePayment_accepted [OF verifyCurrentPrice_ex this create_payment_token_ex]
  show ?thesis by simp
qed

lemma amounts_1_34_unchanged:
  "finalAmount (priced (fl (134 / 100))) 25 = fl (101 / 100)"
  "expectedFinalAmount (fl (134 / 100)) 25 = 1"
  "\<bar>js_sub 1 (fl (101 / 100))\<bar> > literal_0_01"
    apply (simp add: form_eval)
    apply (simp add: js_eval)
   apply (simp add: expectedFinalAmount_def js_eval)
  apply (simp add: js_eval)
  done

lemma storePayment_1_34_unchanged:
  "storePayment (ex_store_env (fl (134 / 100))) (priced (fl (134 / 100))) 25 ''h1'' ex_modal =
   store_failed ''Price has changed. Please refresh and try again.'' ex_modal"
proof -
  have "\<bar>js_sub (expectedFinalAmount (fl (134 / 100)) 25)
            (finalAmount (priced (fl (134 / 100))) 25)\<bar> > literal_0_01"
    by (simp only: amounts_1_34_unchanged)
  from storePayment_refused [OF verifyCurrentPrice_ex this] show ?thesis .
qed

lemma amounts_10_reread_10_0149:
  "finalAmount ex_form 0 = 10"
  "expectedFinalAmount (fl (100149 / 10000)) 0 = fl (1001 / 100)"
  "\<not> \<bar>js_sub (fl (1001 / 100)) 10\<bar> > literal_0_01"
  "1 / 100 < \<bar>fl (100149 / 10000) - 10\<bar>"
     apply (simp add: form_eval)
     apply (simp add: js_eval)
    apply (simp add: expectedFinalAmount_def js_eval)
   apply (simp add: js_eval)
  apply (simp add: js_eval)
  done





text \<open>With an unchanged price the same call stores the token.\<close>

lemma storePayment_same_price_stores:
  "fst (storePayment (ex_store_env 10) ex_form 0 ''h1'' ex_modal) = Some ''tok''"
proof -
  have "expectedFinalAmount 10 0 = 10" and "\<not> \<bar>js_sub 10 10\<bar> > literal_0_01"
    by (simp_all add: expectedFinalAmount_def js_eval)
  then have "\<not> \<bar>js_sub (expectedFinalAmount 10 0) (finalAmount ex_form 0)\<bar> > literal_0_01"
    by (simp only: amounts_10_reread_10_0149(1) not_False_eq_True)
  from storePayment_accepted [OF verifyCurrentPrice_ex this create_payment_token_ex]
  show ?thesis by simp
qed

end
